theory Spec2Isabelle
  imports Main "HOL-Library.Sublist"
begin

section \<open>Strings and arrays of the JavaScript runtime\<close>

text \<open>
  A JavaScript string is modelled as a HOL \<^typ>\<open>string\<close> holding its UTF-8 bytes.
  The constants of \<^verbatim>\<open>src/index.ts\<close> are ASCII except for the four pictographs that
  prefix the validation messages; every needle the program searches for is ASCII, and
  an ASCII byte occurs in well-formed UTF-8 only as that ASCII character, so substring
  tests, prefix tests and splitting at the line feed give the same answers on the bytes
  as on the UTF-16 code units of the runtime.
\<close>

text \<open>\<^verbatim>\<open>s.startsWith(p)\<close>.\<close>

fun startsWith :: "string \<Rightarrow> string \<Rightarrow> bool" where
  "startsWith s [] = True"
| "startsWith [] (p # ps) = False"
| "startsWith (c # cs) (p # ps) = (c = p \<and> startsWith cs ps)"

text \<open>\<^verbatim>\<open>s.includes(needle)\<close>: the needle starts at some position of \<open>s\<close>.\<close>

fun includes_str :: "string \<Rightarrow> string \<Rightarrow> bool" where
  "includes_str [] needle = (needle = [])"
| "includes_str (c # cs) needle = (startsWith (c # cs) needle \<or> includes_str cs needle)"

text \<open>\<^verbatim>\<open>s.split('\n')\<close>: the pieces between line feeds; the empty string gives one empty piece.\<close>

fun split_str :: "string \<Rightarrow> string list" where
  "split_str [] = [[]]"
| "split_str (c # cs) =
     (if c = CHR ''\<newline>'' then [] # split_str cs
      else (case split_str cs of [] \<Rightarrow> [[c]] | l # ls \<Rightarrow> (c # l) # ls))"

text \<open>\<^verbatim>\<open>xs.join(sep)\<close> on an array of strings.\<close>

fun join_str :: "string \<Rightarrow> string list \<Rightarrow> string" where
  "join_str sep [] = []"
| "join_str sep [l] = l"
| "join_str sep (l # m # ls) = l @ sep @ join_str sep (m # ls)"

text \<open>
  \<^verbatim>\<open>xs.findIndex(cb)\<close>: the callback sees the element and its index; the result is the
  first index the callback accepts, and \<open>-1\<close> when it accepts none.
\<close>

fun findIndex_from :: "int \<Rightarrow> ('a \<Rightarrow> int \<Rightarrow> bool) \<Rightarrow> 'a list \<Rightarrow> int" where
  "findIndex_from i cb [] = - 1"
| "findIndex_from i cb (x # xs) = (if cb x i then i else findIndex_from (i + 1) cb xs)"

definition findIndex :: "('a \<Rightarrow> int \<Rightarrow> bool) \<Rightarrow> 'a list \<Rightarrow> int" where
  "findIndex cb xs = findIndex_from 0 cb xs"

text \<open>
  \<^verbatim>\<open>xs.slice(start, end)\<close>: a negative bound counts from the end, both bounds are
  clamped to the array, and an end at or before the start gives the empty array.
\<close>

definition slice_bound :: "nat \<Rightarrow> int \<Rightarrow> nat" where
  "slice_bound len k = (if k < 0 then nat (max (int len + k) 0) else min (nat k) len)"

definition slice :: "'a list \<Rightarrow> int \<Rightarrow> int \<Rightarrow> 'a list" where
  "slice xs start end =
     (let from = slice_bound (length xs) start; to = slice_bound (length xs) end
      in take (to - from) (drop from xs))"

text \<open>
  \<^verbatim>\<open>type.charAt(0).toUpperCase() + type.slice(1)\<close>. Only the keys found in the
  example catalog or inherited from \<^verbatim>\<open>Object.prototype\<close> reach this expression, and
  they are ASCII, so the upper-casing is written for the letters \<open>a\<close> to \<open>z\<close>.
\<close>

definition toUpperCase_char :: "char \<Rightarrow> char" where
  "toUpperCase_char c =
     (let n = (of_char c :: nat) in if 97 \<le> n \<and> n \<le> 122 then char_of (n - 32) else c)"

definition capitalize :: "string \<Rightarrow> string" where
  "capitalize s = (case s of [] \<Rightarrow> [] | c # cs \<Rightarrow> toUpperCase_char c # cs)"

subsection \<open>Values, property lookup and errors\<close>

text \<open>
  \<^verbatim>\<open>sectionMap\<close> and \<^verbatim>\<open>CODE_EXAMPLES\<close> are object literals, so a lookup by an
  arbitrary key also finds the members they inherit from \<^verbatim>\<open>Object.prototype\<close>: eleven
  built-in functions and the accessor \<^verbatim>\<open>__proto__\<close>, which yields the prototype object.
  The texts of \<open>to_string\<close> for these are the ones Node.js (V8) prints.
\<close>

datatype js_value = Undefined | Str string | NativeFunction string | ObjectPrototype

definition Object_prototype :: "(string \<times> js_value) list" where
  "Object_prototype =
    [(''constructor'', NativeFunction ''Object''),
     (''__defineGetter__'', NativeFunction ''__defineGetter__''),
     (''__defineSetter__'', NativeFunction ''__defineSetter__''),
     (''hasOwnProperty'', NativeFunction ''hasOwnProperty''),
     (''__lookupGetter__'', NativeFunction ''__lookupGetter__''),
     (''__lookupSetter__'', NativeFunction ''__lookupSetter__''),
     (''isPrototypeOf'', NativeFunction ''isPrototypeOf''),
     (''propertyIsEnumerable'', NativeFunction ''propertyIsEnumerable''),
     (''toString'', NativeFunction ''toString''),
     (''valueOf'', NativeFunction ''valueOf''),
     (''__proto__'', ObjectPrototype),
     (''toLocaleString'', NativeFunction ''toLocaleString'')]"

definition get_property :: "(string \<times> string) list \<Rightarrow> string \<Rightarrow> js_value" where
  "get_property obj k =
     (case map_of obj k of
        Some v \<Rightarrow> Str v
      | None \<Rightarrow> (case map_of Object_prototype k of Some v \<Rightarrow> v | None \<Rightarrow> Undefined))"

fun truthy :: "js_value \<Rightarrow> bool" where
  "truthy Undefined = False"
| "truthy (Str s) = (s \<noteq> [])"
| "truthy (NativeFunction n) = True"
| "truthy ObjectPrototype = True"

fun to_string :: "js_value \<Rightarrow> string" where
  "to_string Undefined = ''undefined''"
| "to_string (Str s) = s"
| "to_string (NativeFunction n) = ''function '' @ n @ ''() { [native code] }''"
| "to_string ObjectPrototype = ''[object Object]''"

text \<open>
  An argument of a request is a string or is absent (\<open>None\<close>, the runtime's
  \<^verbatim>\<open>undefined\<close>), as the handlers' signatures declare; \<open>template\<close> is its text inside a
  template literal.
\<close>

definition template :: "string option \<Rightarrow> string" where
  "template v = (case v of None \<Rightarrow> ''undefined'' | Some s \<Rightarrow> s)"

text \<open>
  A thrown value: \<^verbatim>\<open>new Error(message)\<close> of the program, or the \<^verbatim>\<open>TypeError\<close> the
  runtime raises when a property of \<^verbatim>\<open>undefined\<close> is read (message as Node.js 18 words it).
\<close>

datatype js_error = Error string | TypeError string

fun message :: "js_error \<Rightarrow> string" where
  "message (Error m) = m"
| "message (TypeError m) = m"

definition cannot_read_undefined :: "string \<Rightarrow> string" where
  \<open>cannot_read_undefined prop =
     ''Cannot read properties of undefined (reading '' @ [CHR 0x27] @ prop @ [CHR 0x27] @ '')''\<close>

section \<open>Content store\<close>

text \<open>
  The three template literals of the source, one element per line of the literal; the
  value of a literal is its lines joined by line feeds. Each literal opens with a line
  break; the guideline text ends with one, the two examples end with two spaces.
\<close>

definition ANGULAR_GUIDELINES_lines :: "string list" where
  \<open>ANGULAR_GUIDELINES_lines =
    ['''',
     ''# TypeScript, Angular, and Scalable Web Application Best Practices'',
     '''',
     ''You are an expert in TypeScript, Angular, and scalable web application development. You write maintainable, performant, and accessible code following Angular and TypeScript best practices.'',
     '''',
     ''## TypeScript Best Practices'',
     ''- Use strict type checking  '',
     ''- Prefer type inference when the type is obvious  '',
     ''- Avoid the `any` type; use `unknown` when type is uncertain  '',
     '''',
     ''## Angular Best Practices'',
     ''- Always use standalone components over NgModules  '',
     ''- Don\'t use explicit `standalone: true` (it is implied by default)  '',
     ''- Use signals for state management  '',
     ''- Implement lazy loading for feature routes  '',
     ''- Use `NgOptimizedImage` for all static images  '',
     '''',
     ''## Components'',
     ''- Keep components small and focused on a single responsibility  '',
     ''- Use `input()` and `output()` functions instead of decorators  '',
     ''- Use `computed()` for derived state  '',
     ''- Set `changeDetection: ChangeDetectionStrategy.OnPush` in `@Component` decorator  '',
     ''- Prefer inline templates for small components  '',
     ''- Prefer Reactive forms instead of Template-driven ones  '',
     ''- Do NOT use `ngClass`, use `class` bindings instead  '',
     ''- DO NOT use `ngStyle`, use `style` bindings instead  '',
     '''',
     ''## State Management'',
     ''- Use signals for local component state  '',
     ''- Use `computed()` for derived state  '',
     ''- Keep state transformations pure and predictable  '',
     '''',
     ''## Templates'',
     ''- Keep templates simple and avoid complex logic  '',
     ''- Use native control flow (`@if`, `@for`, `@switch`) instead of `*ngIf`, `*ngFor`, `*ngSwitch`  '',
     ''- Use the async pipe to handle observables  '',
     '''',
     ''## Services'',
     ''- Design services around a single responsibility  '',
     ''- Use the `providedIn: \'root\'` option for singleton services  '',
     ''- Use the `inject()` function instead of constructor injection'',
     '''']\<close>

definition ANGULAR_GUIDELINES :: string where
  "ANGULAR_GUIDELINES = join_str ''\<newline>'' ANGULAR_GUIDELINES_lines"

definition CODE_EXAMPLES_component_lines :: "string list" where
  \<open>CODE_EXAMPLES_component_lines =
    ['''',
     ''// Good: Modern Angular component with signals'',
     ''import { Component, input, output, computed, ChangeDetectionStrategy } from \'@angular/core\';'',
     ''import { CommonModule } from \'@angular/common\';'',
     '''',
     ''@Component({'',
     ''  selector: \'app-user-card\','',
     ''  template: `'',
     ''    <div class="user-card" '',
     ''         [class.active]="isActive()"'',
     ''         [style.background-color]="backgroundColor()">'',
     ''      @if (user(); as currentUser) {'',
     ''        <h3>{{ currentUser.name }}</h3>'',
     ''        <p>{{ currentUser.email }}</p>'',
     ''        @if (showActions()) {'',
     ''          <button (click)="onEdit()">Edit</button>'',
     ''        }'',
     ''      }'',
     ''    </div>'',
     ''  `,'',
     ''  changeDetection: ChangeDetectionStrategy.OnPush,'',
     ''  imports: [CommonModule]'',
     ''})'',
     ''export class UserCardComponent {'',
     ''  user = input.required<User>();'',
     ''  showActions = input(false);'',
     ''  userUpdated = output<User>();'',
     ''  '',
     ''  backgroundColor = computed(() => this.isActive() ? \'#e3f2fd\' : \'#fff\');'',
     ''  isActive = computed(() => this.user()?.status === \'active\');'',
     ''  '',
     ''  onEdit() {'',
     ''    this.userUpdated.emit(this.user());'',
     ''  }'',
     ''}'',
     ''  '']\<close>

definition CODE_EXAMPLES_component :: string where
  "CODE_EXAMPLES_component = join_str ''\<newline>'' CODE_EXAMPLES_component_lines"

definition CODE_EXAMPLES_service_lines :: "string list" where
  \<open>CODE_EXAMPLES_service_lines =
    ['''',
     ''// Good: Modern Angular service with inject()'',
     ''import { Injectable, inject } from \'@angular/core\';'',
     ''import { HttpClient } from \'@angular/common/http\';'',
     ''import { Observable, signal } from \'rxjs\';'',
     '''',
     ''@Injectable({'',
     ''  providedIn: \'root'' @ [CHR 0x27],
     ''})'',
     ''export class UserService {'',
     ''  private http = inject(HttpClient);'',
     ''  private users = signal<User[]>([]);'',
     ''  '',
     ''  readonly users$ = this.users.asReadonly();'',
     ''  '',
     ''  loadUsers(): Observable<User[]> {'',
     ''    return this.http.get<User[]>(\'/api/users\');'',
     ''  }'',
     ''  '',
     ''  updateUsers(users: User[]) {'',
     ''    this.users.set(users);'',
     ''  }'',
     ''}'',
     ''  '']\<close>

definition CODE_EXAMPLES_service :: string where
  "CODE_EXAMPLES_service = join_str ''\<newline>'' CODE_EXAMPLES_service_lines"

definition CODE_EXAMPLES :: "(string \<times> string) list" where
  "CODE_EXAMPLES =
     [(''component'', CODE_EXAMPLES_component), (''service'', CODE_EXAMPLES_service)]"

section \<open>Responses\<close>

text \<open>
  A tool result is \<^verbatim>\<open>{content: [{type, text}], isError?}\<close>; the key \<^verbatim>\<open>isError\<close> is
  present only in the envelope the dispatcher builds for a caught failure. A prompt
  result is \<^verbatim>\<open>{messages: [{role, content: {type, text}}]}\<close>.
\<close>

record text_block =
  block_type :: string
  block_text :: string

record tool_result =
  content :: "text_block list"
  isError :: "bool option"

record prompt_message =
  role :: string
  message_content :: text_block

record prompt_result =
  messages :: "prompt_message list"

definition text_content :: "string \<Rightarrow> tool_result" where
  "text_content t = \<lparr>content = [\<lparr>block_type = ''text'', block_text = t\<rparr>], isError = None\<rparr>"

section \<open>Tool handlers\<close>

subsection \<open>getAngularGuidelines\<close>

definition sectionMap :: "(string \<times> string) list" where
  "sectionMap =
     [(''typescript'', ''TypeScript Best Practices''),
      (''angular'', ''Angular Best Practices''),
      (''components'', ''Components''),
      (''state'', ''State Management''),
      (''templates'', ''Templates''),
      (''services'', ''Services'')]"

text \<open>
  The body of \<^verbatim>\<open>if (sectionTitle) { ... }\<close>, for the document held in \<^verbatim>\<open>content\<close> (here \<open>document\<close>) and the
  text of \<^verbatim>\<open>sectionTitle\<close>: both searches run over all lines, the second with the index
  test \<^verbatim>\<open>index > startIndex\<close>, and the slice is taken only when the start was found.
\<close>

definition extractSection :: "string \<Rightarrow> string \<Rightarrow> string" where
  "extractSection document sectionTitle =
     (let lines = split_str document;
          startIndex = findIndex (\<lambda>line index. includes_str line sectionTitle) lines;
          nextSectionIndex =
            findIndex (\<lambda>line index. index > startIndex \<and> startsWith line ''## '' \<and>
                                    \<not> includes_str line sectionTitle) lines
      in if startIndex \<noteq> - 1
         then (let endIndex = (if nextSectionIndex \<noteq> - 1 then nextSectionIndex
                               else int (length lines))
               in join_str ''\<newline>'' (slice lines startIndex endIndex))
         else document)"

definition getAngularGuidelines :: "string option \<Rightarrow> tool_result" where
  "getAngularGuidelines section =
     (let content = ANGULAR_GUIDELINES;
          content =
            (case section of
               None \<Rightarrow> content
             | Some s \<Rightarrow>
                 if s \<noteq> [] \<and> s \<noteq> ''all''
                 then (let sectionTitle = get_property sectionMap s
                       in if truthy sectionTitle
                          then extractSection content (to_string sectionTitle)
                          else content)
                 else content)
      in text_content content)"

subsection \<open>getCodeExample\<close>

definition getCodeExample :: "string option \<Rightarrow> js_error + tool_result" where
  "getCodeExample type =
     (if type = Some ''all''
      then Inr (text_content
             (''# Angular Code Examples\<newline>\<newline>## Component Example'' @ CODE_EXAMPLES_component @
              ''\<newline>\<newline>## Service Example'' @ CODE_EXAMPLES_service))
      else (let example = get_property CODE_EXAMPLES (template type)
            in if \<not> truthy example
               then Inl (Error (''No example available for type: '' @ template type))
               else (case type of
                       None \<Rightarrow> Inl (TypeError (cannot_read_undefined ''charAt''))
                     | Some t \<Rightarrow>
                         Inr (text_content
                           (''# '' @ capitalize t @ '' Example\<newline>'' @ to_string example)))))"

subsection \<open>validateCode\<close>

text \<open>The pictographs that prefix the messages, as UTF-8 bytes.\<close>

definition cross_mark :: string where
  "cross_mark = [CHR 0xE2, CHR 0x9D, CHR 0x8C]"

definition warning_sign :: string where
  "warning_sign = [CHR 0xE2, CHR 0x9A, CHR 0xA0, CHR 0xEF, CHR 0xB8, CHR 0x8F]"

definition light_bulb :: string where
  "light_bulb = [CHR 0xF0, CHR 0x9F, CHR 0x92, CHR 0xA1]"

definition check_mark :: string where
  "check_mark = [CHR 0xE2, CHR 0x9C, CHR 0x85]"

text \<open>
  The array \<^verbatim>\<open>issues\<close> after the nine checks: each check pushes its message or nothing,
  in the order of the source.
\<close>

definition issues_of :: "string \<Rightarrow> string option \<Rightarrow> string list" where
  \<open>issues_of code type =
     (if includes_str code ''any''
      then [cross_mark @ '' Avoid using "any" type - use specific types or "unknown" instead'']
      else []) @
     (if includes_str code ''*ngIf'' \<or> includes_str code ''*ngFor'' \<or>
         includes_str code ''*ngSwitch''
      then [cross_mark @
            '' Use native control flow (@if, @for, @switch) instead of structural directives'']
      else []) @
     (if includes_str code ''ngClass''
      then [cross_mark @ '' Use [class] bindings instead of ngClass'']
      else []) @
     (if includes_str code ''ngStyle''
      then [cross_mark @ '' Use [style] bindings instead of ngStyle'']
      else []) @
     (if includes_str code ''@Input()'' \<or> includes_str code ''@Output()''
      then [warning_sign @
            '' Consider using input() and output() functions instead of decorators'']
      else []) @
     (if type = Some ''component''
      then (if \<not> includes_str code ''ChangeDetectionStrategy.OnPush''
            then [warning_sign @
                  '' Consider using OnPush change detection strategy for better performance'']
            else []) @
           (if \<not> includes_str code ''signal('' \<and> \<not> includes_str code ''computed(''
            then [light_bulb @ '' Consider using signals for state management'']
            else [])
      else []) @
     (if type = Some ''service''
      then (if \<not> includes_str code ''inject(''
            then [warning_sign @
                  '' Consider using inject() function instead of constructor injection'']
            else []) @
           (if \<not> includes_str code (''providedIn: \'root'' @ [CHR 0x27])
            then [light_bulb @ '' Consider using providedIn: "root" for singleton services'']
            else [])
      else [])\<close>

definition format_result :: "string list \<Rightarrow> string" where
  "format_result issues =
     (if length issues > 0
      then ''# Code Validation Results\<newline>\<newline>## Issues Found:\<newline>'' @
           join_str ''\<newline>'' (map (\<lambda>issue. ''- '' @ issue) issues) @
           ''\<newline>\<newline>## Guidelines:\<newline>'' @ ANGULAR_GUIDELINES
      else ''# Code Validation Results\<newline>\<newline>'' @ check_mark @
           '' Code looks good! No major issues found.\<newline>\<newline>## Guidelines:\<newline>'' @
           ANGULAR_GUIDELINES)"

text \<open>
  \<^verbatim>\<open>code.includes\<close> is the first thing evaluated: with \<^verbatim>\<open>code\<close> undefined the runtime
  raises a \<^verbatim>\<open>TypeError\<close> before any check runs.
\<close>

definition validateCode :: "string option \<Rightarrow> string option \<Rightarrow> js_error + tool_result" where
  "validateCode code type =
     (case code of
        None \<Rightarrow> Inl (TypeError (cannot_read_undefined ''includes''))
      | Some c \<Rightarrow> Inr (text_content (format_result (issues_of c type))))"

section \<open>Dispatch\<close>

text \<open>
  \<^verbatim>\<open>request.params.arguments\<close> is an object or absent; \<^verbatim>\<open>args?.key\<close> is the value under
  the key, and absent when either is.
\<close>

type_synonym arguments = "(string \<rightharpoonup> string) option"

definition arg :: "arguments \<Rightarrow> string \<Rightarrow> string option" where
  "arg args k = (case args of None \<Rightarrow> None | Some m \<Rightarrow> m k)"

text \<open>The \<^verbatim>\<open>catch\<close> block of the tool dispatcher.\<close>

definition error_envelope :: "js_error \<Rightarrow> tool_result" where
  "error_envelope e =
     \<lparr>content = [\<lparr>block_type = ''text'', block_text = ''Error: '' @ message e\<rparr>],
      isError = Some True\<rparr>"

definition call_tool :: "string \<Rightarrow> arguments \<Rightarrow> tool_result" where
  "call_tool name args =
     (case (if name = ''get_angular_guidelines''
            then Inr (getAngularGuidelines (arg args ''section''))
            else if name = ''get_code_example''
            then getCodeExample (arg args ''type'')
            else if name = ''validate_angular_code''
            then validateCode (arg args ''code'') (arg args ''type'')
            else Inl (Error (''Unknown tool: '' @ name)))
      of Inr result \<Rightarrow> result
       | Inl e \<Rightarrow> error_envelope e)"

text \<open>
  The prompt handler has no \<^verbatim>\<open>try\<close>: a thrown error rejects the request (\<open>Inl\<close>).
\<close>

definition user_message :: "string \<Rightarrow> prompt_result" where
  "user_message t =
     \<lparr>messages = [\<lparr>role = ''user'',
                     message_content = \<lparr>block_type = ''text'', block_text = t\<rparr>\<rparr>]\<rparr>"

definition get_prompt :: "string \<Rightarrow> arguments \<Rightarrow> js_error + prompt_result" where
  \<open>get_prompt name args =
     (if name = ''angular_code_review''
      then Inr (user_message
             (''Please review this Angular/TypeScript code for best practices compliance:\<newline>\<newline>'' @
              template (arg args ''code'') @
              ''\<newline>\<newline>Check against these guidelines:\<newline>'' @ ANGULAR_GUIDELINES @
              ''\<newline>\<newline>Provide specific feedback on what can be improved.''))
      else if name = ''create_angular_component''
      then Inr (user_message
             (''Create a new Angular component named "'' @ template (arg args ''componentName'') @
              ''" following these best practices:\<newline>'' @ ANGULAR_GUIDELINES @
              ''\<newline>\<newline>Features requested: '' @
              (case arg args ''features'' of
                 None \<Rightarrow> ''Basic component structure''
               | Some f \<Rightarrow> if f = [] then ''Basic component structure'' else f) @
              ''\<newline>\<newline>Ensure the component uses modern Angular features like signals, standalone components, and proper TypeScript typing.''))
      else Inl (Error (''Unknown prompt: '' @ name)))\<close>


section \<open>Requests and responses\<close>

text \<open>
  The two request kinds that carry a name and arguments, and what the caller gets back:
  a tool result, a prompt result, or a rejected request.
\<close>

datatype request = CallTool string arguments | GetPrompt string arguments

datatype response = ToolResult tool_result | PromptResult prompt_result | Rejected js_error

fun handle :: "request \<Rightarrow> response" where
  "handle (CallTool name args) = ToolResult (call_tool name args)"
| "handle (GetPrompt name args) =
     (case get_prompt name args of Inr r \<Rightarrow> PromptResult r | Inl e \<Rightarrow> Rejected e)"

section \<open>Counting occurrences\<close>

text \<open>The positions of \<open>s\<close> at which \<open>needle\<close> starts, in increasing order.\<close>

fun occurrences_from :: "nat \<Rightarrow> string \<Rightarrow> string \<Rightarrow> nat list" where
  "occurrences_from i [] needle = (if needle = [] then [i] else [])"
| "occurrences_from i (c # cs) needle =
     (if startsWith (c # cs) needle then [i] else []) @ occurrences_from (Suc i) cs needle"

definition occurrences :: "string \<Rightarrow> string \<Rightarrow> nat list" where
  "occurrences s needle = occurrences_from 0 s needle"

section \<open>Notions of the specification\<close>

text \<open>
  A boundary line for a heading phrase, in the specification's words: a line that is a
  top-level subsection heading marker and does not contain the phrase.
\<close>

definition boundary_line :: "string \<Rightarrow> string \<Rightarrow> bool" where
  "boundary_line phrase line = (startsWith line ''## '' \<and> \<not> includes_str line phrase)"

text \<open>
  The failure classes of the specification (\<^verbatim>\<open>UnknownTool\<close>, \<^verbatim>\<open>UnknownPrompt\<close>,
  \<^verbatim>\<open>InvalidArgument\<close>) are failures the program raises itself, which it does with
  \<^verbatim>\<open>throw new Error(message)\<close> only; an error raised by the runtime belongs to none of
  them.
\<close>

definition raised_by_program :: "js_error \<Rightarrow> bool" where
  "raised_by_program e = (case e of Error m \<Rightarrow> True | TypeError m \<Rightarrow> False)"

section \<open>Facts about the runtime functions\<close>

lemma startsWith_prefix: "startsWith s p = prefix p s"
  by (induction s p rule: startsWith.induct) auto

lemma includes_str_sublist: "includes_str s needle = sublist needle s"
  by (induction s) (auto simp: startsWith_prefix sublist_Cons_right)


lemma split_str_not_Nil: "split_str s \<noteq> []"
  by (induction s) (auto split: list.splits)

lemma join_split_str: "join_str ''\<newline>'' (split_str s) = s"
proof (induction s)
  case Nil
  show ?case by simp
next
  case (Cons c cs)
  obtain l ls where sp: "split_str cs = l # ls"
    using split_str_not_Nil [of cs] by (cases "split_str cs") auto
  show ?case
  proof (cases "c = CHR ''\<newline>''")
    case True
    with Cons sp show ?thesis by simp
  next
    case False
    with Cons sp show ?thesis by (cases ls) auto
  qed
qed

lemma line_sublist: "l \<in> set (split_str s) \<Longrightarrow> sublist l s"
proof (induction s arbitrary: l)
  case Nil
  then show ?case by simp
next
  case (Cons c cs)
  obtain m ms where sp: "split_str cs = m # ms"
    using split_str_not_Nil [of cs] by (cases "split_str cs") auto
  show ?case
  proof (cases "c = CHR ''\<newline>''")
    case True
    with Cons.prems have "l = [] \<or> l \<in> set (split_str cs)" by simp
    then show ?thesis using Cons.IH by (auto simp: sublist_Cons_right)
  next
    case False
    with Cons.prems sp have "l = c # m \<or> l \<in> set ms" by simp
    then show ?thesis
    proof
      assume l: "l = c # m"
      have "prefix m cs" using join_split_str [of cs] sp
        by (cases ms) (auto simp: prefix_def)
      then show ?thesis using l by (auto simp: sublist_Cons_right)
    next
      assume "l \<in> set ms"
      then have "sublist l cs" using Cons.IH sp by simp
      then show ?thesis by (auto simp: sublist_Cons_right)
    qed
  qed
qed

lemma findIndex_from_none:
  "0 \<le> i \<Longrightarrow> (findIndex_from i cb xs = - 1) = (\<forall>k<length xs. \<not> cb (xs ! k) (i + int k))"
proof (induction xs arbitrary: i)
  case Nil
  then show ?case by simp
next
  case (Cons x xs)
  have "(\<forall>k<Suc (length xs). \<not> cb ((x # xs) ! k) (i + int k)) =
        (\<not> cb x i \<and> (\<forall>k<length xs. \<not> cb (xs ! k) (i + 1 + int k)))"
    by (auto simp: less_Suc_eq_0_disj add.assoc)
  with Cons show ?case by auto
qed

lemma findIndex_from_first:
  "k < length xs \<Longrightarrow> cb (xs ! k) (i + int k) \<Longrightarrow> \<forall>m<k. \<not> cb (xs ! m) (i + int m) \<Longrightarrow>
   findIndex_from i cb xs = i + int k"
proof (induction xs arbitrary: i k)
  case Nil
  then show ?case by simp
next
  case (Cons x xs)
  show ?case
  proof (cases k)
    case 0
    with Cons.prems show ?thesis by simp
  next
    case (Suc j)
    from Cons.prems(3) Suc have nx: "\<not> cb x i" by force
    have "\<forall>m<j. \<not> cb (xs ! m) (i + 1 + int m)"
    proof (intro allI impI)
      fix m assume "m < j"
      then have "Suc m < k" using Suc by simp
      with Cons.prems(3) have "\<not> cb ((x # xs) ! Suc m) (i + int (Suc m))" by blast
      then show "\<not> cb (xs ! m) (i + 1 + int m)" by (simp add: algebra_simps)
    qed
    moreover have "j < length xs" using Cons.prems(1) Suc by simp
    moreover have "cb (xs ! j) (i + 1 + int j)" using Cons.prems(2) Suc by (simp add: algebra_simps)
    ultimately have "findIndex_from (i + 1) cb xs = i + 1 + int j"
      using Cons.IH [of j "i + 1"] by blast
    with nx Suc show ?thesis by simp
  qed
qed

lemma slice_inside:
  "i \<le> j \<Longrightarrow> j \<le> length xs \<Longrightarrow> slice xs (int i) (int j) = take (j - i) (drop i xs)"
  by (simp add: slice_def slice_bound_def Let_def)

lemma extractSection_not_found:
  assumes "\<forall>l\<in>set (split_str document). \<not> includes_str l phrase"
  shows "extractSection document phrase = document"
proof -
  have "findIndex (\<lambda>line index. includes_str line phrase) (split_str document) = - 1"
    unfolding findIndex_def using assms by (subst findIndex_from_none) auto
  then show ?thesis by (simp add: extractSection_def Let_def)
qed

lemma extractSection_absent:
  assumes "\<not> includes_str document phrase"
  shows "extractSection document phrase = document"
proof (rule extractSection_not_found, rule ballI)
  fix l assume "l \<in> set (split_str document)"
  then have "sublist l document" by (rule line_sublist)
  with assms show "\<not> includes_str l phrase"
    using sublist_order.order_trans by (auto simp: includes_str_sublist)
qed

lemma startIndex_found:
  assumes "i < length ls" "includes_str (ls ! i) phrase" "\<forall>k<i. \<not> includes_str (ls ! k) phrase"
  shows "findIndex (\<lambda>line index. includes_str line phrase) ls = int i"
  unfolding findIndex_def
  using findIndex_from_first [of i ls "\<lambda>line index. includes_str line phrase" 0] assms by simp

lemma extractSection_boundary:
  assumes "i < length (split_str document)"
    and "includes_str (split_str document ! i) phrase"
    and "\<forall>k<i. \<not> includes_str (split_str document ! k) phrase"
    and "i < j" and "j < length (split_str document)"
    and "boundary_line phrase (split_str document ! j)"
    and "\<forall>k. i < k \<and> k < j \<longrightarrow> \<not> boundary_line phrase (split_str document ! k)"
  shows "extractSection document phrase =
           join_str ''\<newline>'' (take (j - i) (drop i (split_str document)))"
proof -
  let ?ls = "split_str document"
  let ?cb = "\<lambda>line index. index > int i \<and> startsWith line ''## '' \<and> \<not> includes_str line phrase"
  have start: "findIndex (\<lambda>line index. includes_str line phrase) ?ls = int i"
    using assms(1-3) by (rule startIndex_found)
  have "?cb (?ls ! j) (0 + int j)"
    using assms(4,6) by (simp add: boundary_line_def)
  moreover have "\<forall>m<j. \<not> ?cb (?ls ! m) (0 + int m)"
    using assms(7) by (auto simp: boundary_line_def)
  ultimately have nxt: "findIndex ?cb ?ls = int j"
    unfolding findIndex_def using findIndex_from_first [of j ?ls ?cb 0] assms(5) by simp
  have "slice ?ls (int i) (int j) = take (j - i) (drop i ?ls)"
    using assms(4,5) by (intro slice_inside) auto
  with start nxt show ?thesis by (simp add: extractSection_def Let_def)
qed

lemma extractSection_to_end:
  assumes "i < length (split_str document)"
    and "includes_str (split_str document ! i) phrase"
    and "\<forall>k<i. \<not> includes_str (split_str document ! k) phrase"
    and "\<forall>k. i < k \<and> k < length (split_str document) \<longrightarrow>
           \<not> boundary_line phrase (split_str document ! k)"
  shows "extractSection document phrase = join_str ''\<newline>'' (drop i (split_str document))"
proof -
  let ?ls = "split_str document"
  let ?cb = "\<lambda>line index. index > int i \<and> startsWith line ''## '' \<and> \<not> includes_str line phrase"
  have start: "findIndex (\<lambda>line index. includes_str line phrase) ?ls = int i"
    using assms(1-3) by (rule startIndex_found)
  have "\<forall>k<length ?ls. \<not> ?cb (?ls ! k) (0 + int k)"
    using assms(4) by (auto simp: boundary_line_def)
  then have nxt: "findIndex ?cb ?ls = - 1"
    unfolding findIndex_def by (subst findIndex_from_none) auto
  have "slice ?ls (int i) (int (length ?ls)) = take (length ?ls - i) (drop i ?ls)"
    using assms(1) by (intro slice_inside) auto
  with start nxt show ?thesis by (simp add: extractSection_def Let_def)
qed

lemma join_str_Cons:
  "ls \<noteq> [] \<Longrightarrow> join_str sep (l # ls) = l @ sep @ join_str sep ls"
  by (cases ls) auto

lemma join_str_append:
  "xs \<noteq> [] \<Longrightarrow> ys \<noteq> [] \<Longrightarrow> join_str sep (xs @ ys) = join_str sep xs @ sep @ join_str sep ys"
proof (induction xs)
  case Nil
  then show ?case by simp
next
  case (Cons x xs)
  then show ?case by (cases xs) (auto simp: join_str_Cons)
qed

lemma sublist_join_mid: "sublist (join_str sep ys) (join_str sep (xs @ ys @ zs))"
proof (cases "ys = []")
  case True
  then show ?thesis by simp
next
  case ys: False
  have mid: "sublist (join_str sep ys) (join_str sep (ys @ zs))"
  proof (cases "zs = []")
    case True
    then show ?thesis by simp
  next
    case False
    with ys show ?thesis by (simp add: join_str_append)
  qed
  show ?thesis
  proof (cases "xs = []")
    case True
    with mid show ?thesis by simp
  next
    case False
    then have "join_str sep (xs @ ys @ zs) = join_str sep xs @ sep @ join_str sep (ys @ zs)"
      using ys by (intro join_str_append) auto
    moreover have "sublist (join_str sep (ys @ zs)) (join_str sep xs @ sep @ join_str sep (ys @ zs))"
      by (metis append.assoc sublist_append_leftI)
    ultimately show ?thesis using mid sublist_order.order_trans by metis
  qed
qed

lemma sublist_join_slice: "sublist (join_str sep (slice xs i j)) (join_str sep xs)"
proof -
  obtain m n where s: "slice xs i j = take n (drop m xs)"
    by (auto simp: slice_def Let_def)
  have "xs = take m xs @ take n (drop m xs) @ drop n (drop m xs)"
    by (simp only: append_take_drop_id)
  then show ?thesis using sublist_join_mid [of sep "take n (drop m xs)" "take m xs" "drop n (drop m xs)"] s
    by simp
qed

lemma extractSection_sublist: "sublist (extractSection document phrase) document"
proof -
  have "sublist (join_str ''\<newline>'' (slice (split_str document) i j)) document" for i j
    using sublist_join_slice [of "''\<newline>''" "split_str document" i j] by (simp add: join_split_str)
  then show ?thesis by (auto simp: extractSection_def Let_def)
qed

lemma split_str_no_newline: "CHR ''\<newline>'' \<notin> set l \<Longrightarrow> split_str l = [l]"
  by (induction l) auto

lemma split_str_append:
  "CHR ''\<newline>'' \<notin> set l \<Longrightarrow> split_str (l @ CHR ''\<newline>'' # s) = l # split_str s"
  by (induction l) auto

lemma split_join_str:
  "ls \<noteq> [] \<Longrightarrow> \<forall>l\<in>set ls. CHR ''\<newline>'' \<notin> set l \<Longrightarrow> split_str (join_str ''\<newline>'' ls) = ls"
proof (induction ls)
  case Nil
  then show ?case by simp
next
  case (Cons l ls)
  show ?case
  proof (cases "ls = []")
    case True
    with Cons.prems show ?thesis by (simp add: split_str_no_newline)
  next
    case False
    with Cons show ?thesis by (simp add: join_str_Cons split_str_append)
  qed
qed

lemma prefix_before_newline:
  "CHR ''\<newline>'' \<notin> set n \<Longrightarrow> prefix n (x @ CHR ''\<newline>'' # y) = prefix n x"
proof (induction x arbitrary: n)
  case Nil
  then show ?case by (cases n) auto
next
  case (Cons c x)
  then show ?case by (cases n) auto
qed

lemma first_line:
  assumes "split_str s = l # ls"
  shows "s = l \<or> (\<exists>rest. s = l @ CHR ''\<newline>'' # rest)"
proof -
  have "s = join_str ''\<newline>'' (l # ls)" using join_split_str [of s] assms by simp
  then show ?thesis by (cases ls) auto
qed

lemma includes_str_lines:
  assumes "CHR ''\<newline>'' \<notin> set needle"
  shows "includes_str s needle = (\<exists>l\<in>set (split_str s). includes_str l needle)"
proof (induction s)
  case Nil
  show ?case by simp
next
  case (Cons c cs)
  obtain l ls where sp: "split_str cs = l # ls"
    using split_str_not_Nil [of cs] by (cases "split_str cs") auto
  show ?case
  proof (cases "c = CHR ''\<newline>''")
    case True
    have "startsWith (c # cs) needle = (needle = [])"
      using assms True by (cases needle) auto
    with True Cons show ?thesis by auto
  next
    case False
    have "prefix needle (c # cs) = prefix needle (c # l)"
      using first_line [OF sp] prefix_before_newline [OF assms, of "c # l"] by auto
    then have "startsWith (c # cs) needle = startsWith (c # l) needle"
      by (simp only: startsWith_prefix)
    with False Cons sp show ?thesis by auto
  qed
qed

lemma includes_str_join:
  assumes "CHR ''\<newline>'' \<notin> set needle" "ls \<noteq> []" "\<forall>l\<in>set ls. CHR ''\<newline>'' \<notin> set l"
  shows "includes_str (join_str ''\<newline>'' ls) needle = (\<exists>l\<in>set ls. includes_str l needle)"
  using includes_str_lines [OF assms(1), of "join_str ''\<newline>'' ls"] split_join_str [OF assms(2,3)]
  by simp

lemma guideline_lines: "split_str ANGULAR_GUIDELINES = ANGULAR_GUIDELINES_lines"
  unfolding ANGULAR_GUIDELINES_def
  by (rule split_join_str) (simp_all add: ANGULAR_GUIDELINES_lines_def)

lemma component_lines: "split_str CODE_EXAMPLES_component = CODE_EXAMPLES_component_lines"
  unfolding CODE_EXAMPLES_component_def
  by (rule split_join_str) (simp_all add: CODE_EXAMPLES_component_lines_def)

lemma service_lines: "split_str CODE_EXAMPLES_service = CODE_EXAMPLES_service_lines"
  unfolding CODE_EXAMPLES_service_def
  by (rule split_join_str) (simp_all add: CODE_EXAMPLES_service_lines_def)

lemma all_before: "i \<le> length xs \<Longrightarrow> list_all P (take i xs) \<Longrightarrow> \<forall>k<i. P (xs ! k)"
  by (auto simp: list_all_iff in_set_conv_nth) (metis length_take min.absorb2 nth_take nth_mem)

lemma all_between:
  assumes "j \<le> length xs" "list_all P (take (j - Suc i) (drop (Suc i) xs))"
  shows "\<forall>k. i < k \<and> k < j \<longrightarrow> P (xs ! k)"
proof (intro allI impI)
  fix k assume k: "i < k \<and> k < j"
  let ?ys = "take (j - Suc i) (drop (Suc i) xs)"
  have len: "length ?ys = j - Suc i" using assms(1) by simp
  have a: "k - Suc i < j - Suc i" using k by linarith
  have b: "Suc i + (k - Suc i) = k" using k by linarith
  have "?ys ! (k - Suc i) = drop (Suc i) xs ! (k - Suc i)" using a by simp
  also have "\<dots> = xs ! (Suc i + (k - Suc i))"
    using k assms(1) by (intro nth_drop) linarith
  finally have "?ys ! (k - Suc i) = xs ! k" using b by simp
  moreover have "k - Suc i < length ?ys" using a len by simp
  ultimately show "P (xs ! k)" using assms(2) by (metis list_all_length)
qed

lemma extractSection_eval_boundary:
  assumes "split_str document = ls" "i < j" "j < length ls"
    and "list_all (\<lambda>l. \<not> includes_str l phrase) (take i ls)"
    and "includes_str (ls ! i) phrase"
    and "list_all (\<lambda>l. \<not> boundary_line phrase l) (take (j - Suc i) (drop (Suc i) ls))"
    and "boundary_line phrase (ls ! j)"
  shows "extractSection document phrase = join_str ''\<newline>'' (take (j - i) (drop i ls))"
proof -
  have "\<forall>k<i. \<not> includes_str (ls ! k) phrase"
    using all_before [of i ls "\<lambda>l. \<not> includes_str l phrase"] assms(2,3,4) by simp
  moreover have "\<forall>k. i < k \<and> k < j \<longrightarrow> \<not> boundary_line phrase (ls ! k)"
    using all_between [of j ls "\<lambda>l. \<not> boundary_line phrase l" i] assms(3,6) by simp
  ultimately show ?thesis
    using extractSection_boundary [of i document phrase j] assms(1,2,3,5,7) by simp
qed

lemma extractSection_eval_to_end:
  assumes "split_str document = ls" "i < length ls"
    and "list_all (\<lambda>l. \<not> includes_str l phrase) (take i ls)"
    and "includes_str (ls ! i) phrase"
    and "list_all (\<lambda>l. \<not> boundary_line phrase l) (drop (Suc i) ls)"
  shows "extractSection document phrase = join_str ''\<newline>'' (drop i ls)"
proof -
  have "\<forall>k<i. \<not> includes_str (ls ! k) phrase"
    using all_before [of i ls "\<lambda>l. \<not> includes_str l phrase"] assms(2,3) by simp
  moreover have "\<forall>k. i < k \<and> k < length ls \<longrightarrow> \<not> boundary_line phrase (ls ! k)"
    using all_between [of "length ls" ls "\<lambda>l. \<not> boundary_line phrase l" i] assms(5) by simp
  ultimately show ?thesis
    using extractSection_to_end [of i document phrase] assms(1,2,4) by simp
qed

lemma section_typescript:
  "extractSection ANGULAR_GUIDELINES ''TypeScript Best Practices'' =
     join_str ''\<newline>'' (take (10 - 5) (drop 5 ANGULAR_GUIDELINES_lines))"
  by (rule extractSection_eval_boundary [OF guideline_lines])
     (simp_all add: ANGULAR_GUIDELINES_lines_def boundary_line_def)

lemma section_services:
  "extractSection ANGULAR_GUIDELINES ''Services'' =
     join_str ''\<newline>'' (drop 37 ANGULAR_GUIDELINES_lines)"
  by (rule extractSection_eval_to_end [OF guideline_lines])
     (simp_all add: ANGULAR_GUIDELINES_lines_def boundary_line_def)

section \<open>The guideline tool\<close>

lemma section_angular:
  "extractSection ANGULAR_GUIDELINES ''Angular Best Practices'' =
     join_str ''\<newline>'' (take (17 - 10) (drop 10 ANGULAR_GUIDELINES_lines))"
  by (rule extractSection_eval_boundary [OF guideline_lines])
     (simp_all add: ANGULAR_GUIDELINES_lines_def boundary_line_def)

lemma section_components:
  "extractSection ANGULAR_GUIDELINES ''Components'' =
     join_str ''\<newline>'' (take (27 - 17) (drop 17 ANGULAR_GUIDELINES_lines))"
  by (rule extractSection_eval_boundary [OF guideline_lines])
     (simp_all add: ANGULAR_GUIDELINES_lines_def boundary_line_def)

lemma section_state:
  "extractSection ANGULAR_GUIDELINES ''State Management'' =
     join_str ''\<newline>'' (take (32 - 27) (drop 27 ANGULAR_GUIDELINES_lines))"
  by (rule extractSection_eval_boundary [OF guideline_lines])
     (simp_all add: ANGULAR_GUIDELINES_lines_def boundary_line_def)

lemma section_templates:
  "extractSection ANGULAR_GUIDELINES ''Templates'' =
     join_str ''\<newline>'' (take (37 - 32) (drop 32 ANGULAR_GUIDELINES_lines))"
  by (rule extractSection_eval_boundary [OF guideline_lines])
     (simp_all add: ANGULAR_GUIDELINES_lines_def boundary_line_def)

lemma guideline_lines_no_newline: "\<forall>l\<in>set ANGULAR_GUIDELINES_lines. CHR ''\<newline>'' \<notin> set l"
  by (simp add: ANGULAR_GUIDELINES_lines_def)

lemma guideline_lines_no_bracket: "\<forall>l\<in>set ANGULAR_GUIDELINES_lines. CHR ''['' \<notin> set l"
  by (simp add: ANGULAR_GUIDELINES_lines_def)

lemma set_join_str: "set (join_str sep ls) \<subseteq> set sep \<union> \<Union> (set ` set ls)"
  by (induction sep ls rule: join_str.induct) auto

text \<open>What a section of the guideline document looks like, given its lines.\<close>

lemma section_props:
  assumes ex: "extractSection ANGULAR_GUIDELINES title =
                 join_str ''\<newline>'' (take n (drop i ANGULAR_GUIDELINES_lines))"
    and hd: "hd (take n (drop i ANGULAR_GUIDELINES_lines)) = ''## '' @ title"
    and ne: "take n (drop i ANGULAR_GUIDELINES_lines) \<noteq> []"
  shows "extractSection ANGULAR_GUIDELINES title \<noteq> [] \<and>
         sublist (extractSection ANGULAR_GUIDELINES title) ANGULAR_GUIDELINES \<and>
         hd (split_str (extractSection ANGULAR_GUIDELINES title)) = ''## '' @ title \<and>
         ''## '' @ title \<in> set (split_str ANGULAR_GUIDELINES)"
proof -
  let ?xs = "take n (drop i ANGULAR_GUIDELINES_lines)"
  have sub: "set ?xs \<subseteq> set ANGULAR_GUIDELINES_lines"
    using set_take_subset set_drop_subset by fast
  then have "\<forall>l\<in>set ?xs. CHR ''\<newline>'' \<notin> set l"
    using guideline_lines_no_newline by blast
  with ne have sp: "split_str (extractSection ANGULAR_GUIDELINES title) = ?xs"
    unfolding ex by (intro split_join_str)
  then have h: "hd (split_str (extractSection ANGULAR_GUIDELINES title)) = ''## '' @ title"
    using hd by simp
  have "extractSection ANGULAR_GUIDELINES title \<noteq> []"
  proof
    assume "extractSection ANGULAR_GUIDELINES title = []"
    then have "hd (split_str (extractSection ANGULAR_GUIDELINES title)) = []" by simp
    with h show False by simp
  qed
  moreover have "''## '' @ title \<in> set (split_str ANGULAR_GUIDELINES)"
    using hd ne sub hd_in_set [OF ne] by (auto simp: guideline_lines)
  ultimately show ?thesis using h extractSection_sublist by blast
qed

lemma sections_ok:
  assumes "(s, title) \<in> set sectionMap"
  shows "getAngularGuidelines (Some s) = text_content (extractSection ANGULAR_GUIDELINES title) \<and>
         extractSection ANGULAR_GUIDELINES title \<noteq> [] \<and>
         sublist (extractSection ANGULAR_GUIDELINES title) ANGULAR_GUIDELINES \<and>
         hd (split_str (extractSection ANGULAR_GUIDELINES title)) = ''## '' @ title \<and>
         ''## '' @ title \<in> set (split_str ANGULAR_GUIDELINES)"
proof -
  have g: "getAngularGuidelines (Some s) = text_content (extractSection ANGULAR_GUIDELINES title)"
    using assms by (auto simp: getAngularGuidelines_def get_property_def sectionMap_def)
  have "title = ''TypeScript Best Practices'' \<or> title = ''Angular Best Practices'' \<or>
        title = ''Components'' \<or> title = ''State Management'' \<or> title = ''Templates'' \<or>
        title = ''Services''"
    using assms by (auto simp: sectionMap_def)
  then have "extractSection ANGULAR_GUIDELINES title \<noteq> [] \<and>
         sublist (extractSection ANGULAR_GUIDELINES title) ANGULAR_GUIDELINES \<and>
         hd (split_str (extractSection ANGULAR_GUIDELINES title)) = ''## '' @ title \<and>
         ''## '' @ title \<in> set (split_str ANGULAR_GUIDELINES)"
  proof (elim disjE)
    assume t: "title = ''TypeScript Best Practices''"
    show ?thesis unfolding t
      by (rule section_props [OF section_typescript]) (simp_all add: ANGULAR_GUIDELINES_lines_def)
  next
    assume t: "title = ''Angular Best Practices''"
    show ?thesis unfolding t
      by (rule section_props [OF section_angular]) (simp_all add: ANGULAR_GUIDELINES_lines_def)
  next
    assume t: "title = ''Components''"
    show ?thesis unfolding t
      by (rule section_props [OF section_components]) (simp_all add: ANGULAR_GUIDELINES_lines_def)
  next
    assume t: "title = ''State Management''"
    show ?thesis unfolding t
      by (rule section_props [OF section_state]) (simp_all add: ANGULAR_GUIDELINES_lines_def)
  next
    assume t: "title = ''Templates''"
    show ?thesis unfolding t
      by (rule section_props [OF section_templates]) (simp_all add: ANGULAR_GUIDELINES_lines_def)
  next
    assume t: "title = ''Services''"
    have s: "extractSection ANGULAR_GUIDELINES ''Services'' =
               join_str ''\<newline>'' (take 5 (drop 37 ANGULAR_GUIDELINES_lines))"
      unfolding section_services by (simp add: ANGULAR_GUIDELINES_lines_def)
    show ?thesis unfolding t
      by (rule section_props [OF s]) (simp_all add: ANGULAR_GUIDELINES_lines_def)
  qed
  with g show ?thesis by simp
qed

lemma inherited_has_bracket:
  "map_of Object_prototype k = Some v \<Longrightarrow> CHR ''['' \<in> set (to_string v)"
  by (auto simp: Object_prototype_def split: if_splits)

lemma guidelines_no_bracket: "CHR ''['' \<notin> set ANGULAR_GUIDELINES"
  using set_join_str [of "''\<newline>''" ANGULAR_GUIDELINES_lines] guideline_lines_no_bracket
  by (auto simp: ANGULAR_GUIDELINES_def)

lemma unrecognized_section:
  assumes "map_of sectionMap s = None"
  shows "getAngularGuidelines (Some s) = text_content ANGULAR_GUIDELINES"
proof (cases "map_of Object_prototype s")
  case None
  with assms show ?thesis by (simp add: getAngularGuidelines_def get_property_def)
next
  case (Some v)
  have "\<not> includes_str ANGULAR_GUIDELINES (to_string v)"
    using inherited_has_bracket [OF Some] guidelines_no_bracket set_mono_sublist
    by (auto simp: includes_str_sublist)
  then have "extractSection ANGULAR_GUIDELINES (to_string v) = ANGULAR_GUIDELINES"
    by (rule extractSection_absent)
  with assms Some show ?thesis by (simp add: getAngularGuidelines_def get_property_def)
qed

lemma isError_text_content [simp]: "isError (text_content t) = None"
  by (simp add: text_content_def)

text \<open>
  Claim C2. For each of the six section names the tool returns a result that is not an
  error and holds one text block, whose text is the extracted section: it is not empty,
  it is a contiguous part of the guideline document (\<open>sublist\<close>), and its first line is
  the heading line \<^verbatim>\<open>## <title>\<close> of that section, a line of the document. With the
  section absent, \<^verbatim>\<open>all\<close>, or any other string that is not one of the six names, the
  one text block holds the whole guideline document, and the result is not an error
  either.
\<close>

theorem get_angular_guidelines_sections:
  "((s, title) \<in>
      {(''typescript'', ''TypeScript Best Practices''), (''angular'', ''Angular Best Practices''),
       (''components'', ''Components''), (''state'', ''State Management''),
       (''templates'', ''Templates''), (''services'', ''Services'')} \<and>
    arg args ''section'' = Some s \<longrightarrow>
      call_tool ''get_angular_guidelines'' args =
        \<lparr>content = [\<lparr>block_type = ''text'',
                      block_text = extractSection ANGULAR_GUIDELINES title\<rparr>],
         isError = None\<rparr> \<and>
      extractSection ANGULAR_GUIDELINES title \<noteq> [] \<and>
      sublist (extractSection ANGULAR_GUIDELINES title) ANGULAR_GUIDELINES \<and>
      hd (split_str (extractSection ANGULAR_GUIDELINES title)) = ''## '' @ title \<and>
      ''## '' @ title \<in> set (split_str ANGULAR_GUIDELINES)) \<and>
   (arg args ''section'' = None \<or> arg args ''section'' = Some ''all'' \<or>
    (\<exists>u. arg args ''section'' = Some u \<and>
         u \<notin> {''typescript'', ''angular'', ''components'', ''state'', ''templates'',
              ''services''}) \<longrightarrow>
      call_tool ''get_angular_guidelines'' args =
        \<lparr>content = [\<lparr>block_type = ''text'', block_text = ANGULAR_GUIDELINES\<rparr>],
         isError = None\<rparr>)"
proof (intro conjI impI)
  assume a: "(s, title) \<in>
      {(''typescript'', ''TypeScript Best Practices''), (''angular'', ''Angular Best Practices''),
       (''components'', ''Components''), (''state'', ''State Management''),
       (''templates'', ''Templates''), (''services'', ''Services'')} \<and>
    arg args ''section'' = Some s"
  then have m: "(s, title) \<in> set sectionMap" and s: "arg args ''section'' = Some s"
    by (simp_all add: sectionMap_def)
  note ok = sections_ok [OF m]
  show "call_tool ''get_angular_guidelines'' args =
        \<lparr>content = [\<lparr>block_type = ''text'',
                      block_text = extractSection ANGULAR_GUIDELINES title\<rparr>],
         isError = None\<rparr>"
    using s ok by (simp add: call_tool_def text_content_def)
  show "extractSection ANGULAR_GUIDELINES title \<noteq> []" using ok by blast
  show "sublist (extractSection ANGULAR_GUIDELINES title) ANGULAR_GUIDELINES" using ok by blast
  show "hd (split_str (extractSection ANGULAR_GUIDELINES title)) = ''## '' @ title"
    using ok by blast
  show "''## '' @ title \<in> set (split_str ANGULAR_GUIDELINES)" using ok by blast
next
  assume a: "arg args ''section'' = None \<or> arg args ''section'' = Some ''all'' \<or>
    (\<exists>u. arg args ''section'' = Some u \<and>
         u \<notin> {''typescript'', ''angular'', ''components'', ''state'', ''templates'',
              ''services''})"
  define S where
    "S = {''typescript'', ''angular'', ''components'', ''state'', ''templates'', ''services''}"
  have none: "map_of sectionMap u = None" if "u \<notin> S" for u
    using that by (simp add: S_def sectionMap_def)
  from a have aS: "arg args ''section'' = None \<or> arg args ''section'' = Some ''all'' \<or>
    (\<exists>u. arg args ''section'' = Some u \<and> u \<notin> S)"
    by (simp add: S_def)
  have a': "arg args ''section'' = None \<or> arg args ''section'' = Some ''all'' \<or>
    (\<exists>u. arg args ''section'' = Some u \<and> map_of sectionMap u = None)"
    using aS none by blast
  have "getAngularGuidelines (arg args ''section'') = text_content ANGULAR_GUIDELINES"
    using a' unrecognized_section by (auto simp: getAngularGuidelines_def)
  then show "call_tool ''get_angular_guidelines'' args =
        \<lparr>content = [\<lparr>block_type = ''text'', block_text = ANGULAR_GUIDELINES\<rparr>],
         isError = None\<rparr>"
    by (simp add: call_tool_def text_content_def)
qed

lemma state_section_text:
  \<open>extractSection ANGULAR_GUIDELINES ''State Management'' =
     ''## State Management\<newline>- Use signals for local component state  \<newline>- Use `computed()` for derived state  \<newline>- Keep state transformations pure and predictable  \<newline>''\<close>
  unfolding section_state by (simp add: ANGULAR_GUIDELINES_lines_def)

theorem get_angular_guidelines_sections_witness:
  \<open>call_tool ''get_angular_guidelines'' (Some [''section'' \<mapsto> ''state'']) =
     \<lparr>content =
        [\<lparr>block_type = ''text'',
          block_text = ''## State Management\<newline>- Use signals for local component state  \<newline>- Use `computed()` for derived state  \<newline>- Keep state transformations pure and predictable  \<newline>''\<rparr>],
      isError = None\<rparr> \<and>
   sublist (extractSection ANGULAR_GUIDELINES ''State Management'') ANGULAR_GUIDELINES \<and>
   ''## State Management'' \<in> set (split_str ANGULAR_GUIDELINES) \<and>
   call_tool ''get_angular_guidelines'' (Some [''section'' \<mapsto> ''typescript'']) =
     \<lparr>content = [\<lparr>block_type = ''text'',
                   block_text = extractSection ANGULAR_GUIDELINES ''TypeScript Best Practices''\<rparr>],
      isError = None\<rparr> \<and>
   call_tool ''get_angular_guidelines'' (Some [''section'' \<mapsto> ''angular'']) =
     \<lparr>content = [\<lparr>block_type = ''text'',
                   block_text = extractSection ANGULAR_GUIDELINES ''Angular Best Practices''\<rparr>],
      isError = None\<rparr> \<and>
   call_tool ''get_angular_guidelines'' (Some [''section'' \<mapsto> ''components'']) =
     \<lparr>content = [\<lparr>block_type = ''text'',
                   block_text = extractSection ANGULAR_GUIDELINES ''Components''\<rparr>],
      isError = None\<rparr> \<and>
   call_tool ''get_angular_guidelines'' (Some [''section'' \<mapsto> ''templates'']) =
     \<lparr>content = [\<lparr>block_type = ''text'',
                   block_text = extractSection ANGULAR_GUIDELINES ''Templates''\<rparr>],
      isError = None\<rparr> \<and>
   call_tool ''get_angular_guidelines'' (Some [''section'' \<mapsto> ''services'']) =
     \<lparr>content = [\<lparr>block_type = ''text'',
                   block_text = extractSection ANGULAR_GUIDELINES ''Services''\<rparr>],
      isError = None\<rparr> \<and>
   call_tool ''get_angular_guidelines'' None =
     \<lparr>content = [\<lparr>block_type = ''text'', block_text = ANGULAR_GUIDELINES\<rparr>],
      isError = None\<rparr> \<and>
   call_tool ''get_angular_guidelines'' (Some [''section'' \<mapsto> ''all'']) =
     \<lparr>content = [\<lparr>block_type = ''text'', block_text = ANGULAR_GUIDELINES\<rparr>],
      isError = None\<rparr> \<and>
   call_tool ''get_angular_guidelines'' (Some [''section'' \<mapsto> ''toString'']) =
     \<lparr>content = [\<lparr>block_type = ''text'', block_text = ANGULAR_GUIDELINES\<rparr>],
      isError = None\<rparr>\<close>
proof -
  have st: "call_tool ''get_angular_guidelines'' (Some [''section'' \<mapsto> ''state'']) =
      \<lparr>content = [\<lparr>block_type = ''text'',
                    block_text = extractSection ANGULAR_GUIDELINES ''State Management''\<rparr>],
       isError = None\<rparr> \<and>
     sublist (extractSection ANGULAR_GUIDELINES ''State Management'') ANGULAR_GUIDELINES \<and>
     ''## '' @ ''State Management'' \<in> set (split_str ANGULAR_GUIDELINES)"
    using get_angular_guidelines_sections [of "''state''" "''State Management''" "Some [''section'' \<mapsto> ''state'']"]
    by (simp add: arg_def)
  have ty: "call_tool ''get_angular_guidelines'' (Some [''section'' \<mapsto> ''typescript'']) =
      \<lparr>content = [\<lparr>block_type = ''text'',
                    block_text = extractSection ANGULAR_GUIDELINES ''TypeScript Best Practices''\<rparr>],
       isError = None\<rparr> \<and>
     sublist (extractSection ANGULAR_GUIDELINES ''TypeScript Best Practices'') ANGULAR_GUIDELINES \<and>
     ''## '' @ ''TypeScript Best Practices'' \<in> set (split_str ANGULAR_GUIDELINES)"
    using get_angular_guidelines_sections [of "''typescript''" "''TypeScript Best Practices''" "Some [''section'' \<mapsto> ''typescript'']"]
    by (simp add: arg_def)
  have an: "call_tool ''get_angular_guidelines'' (Some [''section'' \<mapsto> ''angular'']) =
      \<lparr>content = [\<lparr>block_type = ''text'',
                    block_text = extractSection ANGULAR_GUIDELINES ''Angular Best Practices''\<rparr>],
       isError = None\<rparr> \<and>
     sublist (extractSection ANGULAR_GUIDELINES ''Angular Best Practices'') ANGULAR_GUIDELINES \<and>
     ''## '' @ ''Angular Best Practices'' \<in> set (split_str ANGULAR_GUIDELINES)"
    using get_angular_guidelines_sections [of "''angular''" "''Angular Best Practices''" "Some [''section'' \<mapsto> ''angular'']"]
    by (simp add: arg_def)
  have co: "call_tool ''get_angular_guidelines'' (Some [''section'' \<mapsto> ''components'']) =
      \<lparr>content = [\<lparr>block_type = ''text'',
                    block_text = extractSection ANGULAR_GUIDELINES ''Components''\<rparr>],
       isError = None\<rparr> \<and>
     sublist (extractSection ANGULAR_GUIDELINES ''Components'') ANGULAR_GUIDELINES \<and>
     ''## '' @ ''Components'' \<in> set (split_str ANGULAR_GUIDELINES)"
    using get_angular_guidelines_sections [of "''components''" "''Components''" "Some [''section'' \<mapsto> ''components'']"]
    by (simp add: arg_def)
  have te: "call_tool ''get_angular_guidelines'' (Some [''section'' \<mapsto> ''templates'']) =
      \<lparr>content = [\<lparr>block_type = ''text'',
                    block_text = extractSection ANGULAR_GUIDELINES ''Templates''\<rparr>],
       isError = None\<rparr> \<and>
     sublist (extractSection ANGULAR_GUIDELINES ''Templates'') ANGULAR_GUIDELINES \<and>
     ''## '' @ ''Templates'' \<in> set (split_str ANGULAR_GUIDELINES)"
    using get_angular_guidelines_sections [of "''templates''" "''Templates''" "Some [''section'' \<mapsto> ''templates'']"]
    by (simp add: arg_def)
  have se: "call_tool ''get_angular_guidelines'' (Some [''section'' \<mapsto> ''services'']) =
      \<lparr>content = [\<lparr>block_type = ''text'',
                    block_text = extractSection ANGULAR_GUIDELINES ''Services''\<rparr>],
       isError = None\<rparr> \<and>
     sublist (extractSection ANGULAR_GUIDELINES ''Services'') ANGULAR_GUIDELINES \<and>
     ''## '' @ ''Services'' \<in> set (split_str ANGULAR_GUIDELINES)"
    using get_angular_guidelines_sections [of "''services''" "''Services''" "Some [''section'' \<mapsto> ''services'']"]
    by (simp add: arg_def)
  have no: "call_tool ''get_angular_guidelines'' (None) =
      \<lparr>content = [\<lparr>block_type = ''text'', block_text = ANGULAR_GUIDELINES\<rparr>],
       isError = None\<rparr>"
    using get_angular_guidelines_sections [of "''state''" "''State Management''" "None"]
    by (simp add: arg_def)
  have al: "call_tool ''get_angular_guidelines'' (Some [''section'' \<mapsto> ''all'']) =
      \<lparr>content = [\<lparr>block_type = ''text'', block_text = ANGULAR_GUIDELINES\<rparr>],
       isError = None\<rparr>"
    using get_angular_guidelines_sections [of "''state''" "''State Management''" "Some [''section'' \<mapsto> ''all'']"]
    by (simp add: arg_def)
  have ts: "call_tool ''get_angular_guidelines'' (Some [''section'' \<mapsto> ''toString'']) =
      \<lparr>content = [\<lparr>block_type = ''text'', block_text = ANGULAR_GUIDELINES\<rparr>],
       isError = None\<rparr>"
    using get_angular_guidelines_sections [of "''state''" "''State Management''" "Some [''section'' \<mapsto> ''toString'']"]
    by (simp add: arg_def)
  show ?thesis using st ty an co te se no al ts by (simp add: state_section_text)
qed

section \<open>Validation\<close>

text \<open>
  Claim C3. For the code \<^verbatim>\<open>let x: any = 1\<close> and the type \<^verbatim>\<open>component\<close> the validation
  finds exactly three issues, in the order of the checks: the message about \<^verbatim>\<open>any\<close>, the
  message about OnPush change detection, the message about signals; the tool returns one
  text block, not an error, that lists them as bullets above the guideline document.
\<close>

theorem validate_any_in_component:
  \<open>issues_of ''let x: any = 1'' (Some ''component'') =
     [cross_mark @ '' Avoid using "any" type - use specific types or "unknown" instead'',
      warning_sign @ '' Consider using OnPush change detection strategy for better performance'',
      light_bulb @ '' Consider using signals for state management''] \<and>
   call_tool ''validate_angular_code''
       (Some [''code'' \<mapsto> ''let x: any = 1'', ''type'' \<mapsto> ''component'']) =
     \<lparr>content =
        [\<lparr>block_type = ''text'',
          block_text =
            ''# Code Validation Results\<newline>\<newline>## Issues Found:\<newline>- '' @ cross_mark @
            '' Avoid using "any" type - use specific types or "unknown" instead\<newline>- '' @
            warning_sign @
            '' Consider using OnPush change detection strategy for better performance\<newline>- '' @
            light_bulb @ '' Consider using signals for state management\<newline>\<newline>## Guidelines:\<newline>'' @
            ANGULAR_GUIDELINES\<rparr>],
      isError = None\<rparr>\<close>
  by (simp add: issues_of_def call_tool_def validateCode_def arg_def format_result_def
      text_content_def)

text \<open>The checks on the component example, one search each.\<close>

lemma component_includes:
  "CHR ''\<newline>'' \<notin> set needle \<Longrightarrow>
   includes_str CODE_EXAMPLES_component needle =
     list_ex (\<lambda>l. includes_str l needle) CODE_EXAMPLES_component_lines"
  using includes_str_lines [of needle CODE_EXAMPLES_component]
  by (simp add: component_lines list_ex_iff)

lemma component_no_any: "\<not> includes_str CODE_EXAMPLES_component ''any''"
  by (simp add: component_includes CODE_EXAMPLES_component_lines_def)

lemma component_no_ngIf: "\<not> includes_str CODE_EXAMPLES_component ''*ngIf''"
  by (simp add: component_includes CODE_EXAMPLES_component_lines_def)

lemma component_no_ngFor: "\<not> includes_str CODE_EXAMPLES_component ''*ngFor''"
  by (simp add: component_includes CODE_EXAMPLES_component_lines_def)

lemma component_no_ngSwitch: "\<not> includes_str CODE_EXAMPLES_component ''*ngSwitch''"
  by (simp add: component_includes CODE_EXAMPLES_component_lines_def)

lemma component_no_ngClass: "\<not> includes_str CODE_EXAMPLES_component ''ngClass''"
  by (simp add: component_includes CODE_EXAMPLES_component_lines_def)

lemma component_no_ngStyle: "\<not> includes_str CODE_EXAMPLES_component ''ngStyle''"
  by (simp add: component_includes CODE_EXAMPLES_component_lines_def)

lemma component_no_Input: "\<not> includes_str CODE_EXAMPLES_component ''@Input()''"
  by (simp add: component_includes CODE_EXAMPLES_component_lines_def)

lemma component_no_Output: "\<not> includes_str CODE_EXAMPLES_component ''@Output()''"
  by (simp add: component_includes CODE_EXAMPLES_component_lines_def)

lemma component_OnPush: "includes_str CODE_EXAMPLES_component ''ChangeDetectionStrategy.OnPush''"
  by (simp add: component_includes CODE_EXAMPLES_component_lines_def)

lemma component_computed: "includes_str CODE_EXAMPLES_component ''computed(''"
  by (simp add: component_includes CODE_EXAMPLES_component_lines_def)

lemmas component_checks =
  component_no_any component_no_ngIf component_no_ngFor component_no_ngSwitch
  component_no_ngClass component_no_ngStyle component_no_Input component_no_Output
  component_OnPush component_computed

text \<open>The response text with issues, line by line.\<close>

lemma call_tool_validate:
  "call_tool ''validate_angular_code'' args =
     (case validateCode (arg args ''code'') (arg args ''type'') of
        Inr result \<Rightarrow> result | Inl e \<Rightarrow> error_envelope e)"
  by (simp add: call_tool_def)

lemma issues_no_newline: "m \<in> set (issues_of code type) \<Longrightarrow> CHR ''\<newline>'' \<notin> set m"
  by (auto simp: issues_of_def cross_mark_def warning_sign_def light_bulb_def split: if_splits)

lemma result_lines:
  fixes bs gl :: "string list"
  assumes "bs \<noteq> []" "gl \<noteq> []"
  shows "join_str ''\<newline>''
           ([''# Code Validation Results'', [], ''## Issues Found:''] @ bs @
            [[], ''## Guidelines:''] @ gl) =
         ''# Code Validation Results\<newline>\<newline>## Issues Found:\<newline>'' @ join_str ''\<newline>'' bs @
         ''\<newline>\<newline>## Guidelines:\<newline>'' @ join_str ''\<newline>'' gl"
proof -
  have a: "join_str ''\<newline>'' ([[], ''## Guidelines:''] @ gl) =
           ''\<newline>## Guidelines:'' @ CHR ''\<newline>'' # join_str ''\<newline>'' gl"
    using assms(2) by (subst join_str_append) simp_all
  have b: "join_str ''\<newline>'' (bs @ [[], ''## Guidelines:''] @ gl) =
           join_str ''\<newline>'' bs @ CHR ''\<newline>'' # join_str ''\<newline>'' ([[], ''## Guidelines:''] @ gl)"
    using assms(1) by (subst join_str_append) simp_all
  have c: "join_str ''\<newline>''
           ([''# Code Validation Results'', [], ''## Issues Found:''] @
            (bs @ [[], ''## Guidelines:''] @ gl)) =
           ''# Code Validation Results\<newline>\<newline>## Issues Found:'' @ CHR ''\<newline>'' #
           join_str ''\<newline>'' (bs @ [[], ''## Guidelines:''] @ gl)"
    using assms(1) by (subst join_str_append) simp_all
  show ?thesis using c unfolding b a by simp
qed

lemma issues_response_lines:
  assumes "issues_of code type \<noteq> []"
  shows "split_str
           (''# Code Validation Results\<newline>\<newline>## Issues Found:\<newline>'' @
            join_str ''\<newline>'' (map (\<lambda>issue. ''- '' @ issue) (issues_of code type)) @
            ''\<newline>\<newline>## Guidelines:\<newline>'' @ ANGULAR_GUIDELINES) =
         [''# Code Validation Results'', [], ''## Issues Found:''] @
         map (\<lambda>issue. ''- '' @ issue) (issues_of code type) @
         [[], ''## Guidelines:''] @ split_str ANGULAR_GUIDELINES"
proof -
  let ?bs = "map (\<lambda>issue. ''- '' @ issue) (issues_of code type)"
  let ?ls = "[''# Code Validation Results'', [], ''## Issues Found:''] @ ?bs @
             [[], ''## Guidelines:''] @ ANGULAR_GUIDELINES_lines"
  have bs: "?bs \<noteq> []" using assms by simp
  have gl: "ANGULAR_GUIDELINES_lines \<noteq> []" by (simp add: ANGULAR_GUIDELINES_lines_def)
  have "\<forall>l\<in>set ?bs. CHR ''\<newline>'' \<notin> set l" using issues_no_newline by auto
  then have nonl: "\<forall>l\<in>set ?ls. CHR ''\<newline>'' \<notin> set l"
    using guideline_lines_no_newline by auto
  have "split_str (join_str ''\<newline>'' ?ls) = ?ls"
    using nonl by (intro split_join_str) simp_all
  then have main: "split_str
           (''# Code Validation Results\<newline>\<newline>## Issues Found:\<newline>'' @ join_str ''\<newline>'' ?bs @
            ''\<newline>\<newline>## Guidelines:\<newline>'' @ join_str ''\<newline>'' ANGULAR_GUIDELINES_lines) = ?ls"
    unfolding result_lines [OF bs gl] .
  show ?thesis
    unfolding guideline_lines unfolding ANGULAR_GUIDELINES_def by (rule main)
qed

text \<open>
  Claim C4. The component example of the catalog, validated as a component, has no
  issue, and the tool returns one text block, not an error, holding the success banner
  followed by the guideline document. Whenever there are issues, the one text block holds
  the heading, the issues as a bulleted list and the same guideline document: line by
  line, the two heading lines, one \<^verbatim>\<open>- \<close> line per issue in order, and after the
  guidelines heading the lines of the guideline document.
\<close>

theorem validate_component_example:
  \<open>issues_of CODE_EXAMPLES_component (Some ''component'') = [] \<and>
   call_tool ''validate_angular_code''
       (Some [''code'' \<mapsto> CODE_EXAMPLES_component, ''type'' \<mapsto> ''component'']) =
     \<lparr>content =
        [\<lparr>block_type = ''text'',
          block_text =
            ''# Code Validation Results\<newline>\<newline>'' @ check_mark @
            '' Code looks good! No major issues found.\<newline>\<newline>## Guidelines:\<newline>'' @
            ANGULAR_GUIDELINES\<rparr>],
      isError = None\<rparr> \<and>
   (arg args ''code'' = Some code \<and> issues_of code (arg args ''type'') \<noteq> [] \<longrightarrow>
      call_tool ''validate_angular_code'' args =
        \<lparr>content =
           [\<lparr>block_type = ''text'',
             block_text =
               ''# Code Validation Results\<newline>\<newline>## Issues Found:\<newline>'' @
               join_str ''\<newline>''
                 (map (\<lambda>issue. ''- '' @ issue) (issues_of code (arg args ''type''))) @
               ''\<newline>\<newline>## Guidelines:\<newline>'' @ ANGULAR_GUIDELINES\<rparr>],
         isError = None\<rparr> \<and>
      split_str
        (''# Code Validation Results\<newline>\<newline>## Issues Found:\<newline>'' @
         join_str ''\<newline>'' (map (\<lambda>issue. ''- '' @ issue) (issues_of code (arg args ''type''))) @
         ''\<newline>\<newline>## Guidelines:\<newline>'' @ ANGULAR_GUIDELINES) =
        [''# Code Validation Results'', [], ''## Issues Found:''] @
        map (\<lambda>issue. ''- '' @ issue) (issues_of code (arg args ''type'')) @
        [[], ''## Guidelines:''] @ split_str ANGULAR_GUIDELINES)\<close>
proof (intro conjI impI)
  show none: "issues_of CODE_EXAMPLES_component (Some ''component'') = []"
    by (simp add: issues_of_def component_checks)
  show "call_tool ''validate_angular_code''
       (Some [''code'' \<mapsto> CODE_EXAMPLES_component, ''type'' \<mapsto> ''component'']) =
     \<lparr>content =
        [\<lparr>block_type = ''text'',
          block_text =
            ''# Code Validation Results\<newline>\<newline>'' @ check_mark @
            '' Code looks good! No major issues found.\<newline>\<newline>## Guidelines:\<newline>'' @
            ANGULAR_GUIDELINES\<rparr>],
      isError = None\<rparr>"
    by (simp add: call_tool_def validateCode_def arg_def format_result_def text_content_def none)
next
  assume a: "arg args ''code'' = Some code \<and> issues_of code (arg args ''type'') \<noteq> []"
  then have c: "arg args ''code'' = Some code"
    and len: "length (issues_of code (arg args ''type'')) > 0"
    by simp_all
  show "call_tool ''validate_angular_code'' args =
        \<lparr>content =
           [\<lparr>block_type = ''text'',
             block_text =
               ''# Code Validation Results\<newline>\<newline>## Issues Found:\<newline>'' @
               join_str ''\<newline>''
                 (map (\<lambda>issue. ''- '' @ issue) (issues_of code (arg args ''type''))) @
               ''\<newline>\<newline>## Guidelines:\<newline>'' @ ANGULAR_GUIDELINES\<rparr>],
         isError = None\<rparr>"
    unfolding call_tool_validate c validateCode_def format_result_def text_content_def
    using len by (simp only: if_True option.simps sum.simps)
next
  assume a: "arg args ''code'' = Some code \<and> issues_of code (arg args ''type'') \<noteq> []"
  then show "split_str
        (''# Code Validation Results\<newline>\<newline>## Issues Found:\<newline>'' @
         join_str ''\<newline>'' (map (\<lambda>issue. ''- '' @ issue) (issues_of code (arg args ''type''))) @
         ''\<newline>\<newline>## Guidelines:\<newline>'' @ ANGULAR_GUIDELINES) =
        [''# Code Validation Results'', [], ''## Issues Found:''] @
        map (\<lambda>issue. ''- '' @ issue) (issues_of code (arg args ''type'')) @
        [[], ''## Guidelines:''] @ split_str ANGULAR_GUIDELINES"
    by (intro issues_response_lines) simp
qed

theorem validate_component_example_witness:
  \<open>call_tool ''validate_angular_code'' (Some [''code'' \<mapsto> ''<div *ngIf="x">'']) =
     \<lparr>content =
        [\<lparr>block_type = ''text'',
          block_text =
            ''# Code Validation Results\<newline>\<newline>## Issues Found:\<newline>- '' @ cross_mark @
            '' Use native control flow (@if, @for, @switch) instead of structural directives'' @
            ''\<newline>\<newline>## Guidelines:\<newline>'' @ ANGULAR_GUIDELINES\<rparr>],
      isError = None\<rparr> \<and>
   split_str
     (''# Code Validation Results\<newline>\<newline>## Issues Found:\<newline>- '' @ cross_mark @
      '' Use native control flow (@if, @for, @switch) instead of structural directives'' @
      ''\<newline>\<newline>## Guidelines:\<newline>'' @ ANGULAR_GUIDELINES) =
     [''# Code Validation Results'', [], ''## Issues Found:'',
      ''- '' @ cross_mark @
      '' Use native control flow (@if, @for, @switch) instead of structural directives'',
      [], ''## Guidelines:''] @ split_str ANGULAR_GUIDELINES\<close>
proof -
  have t: \<open>arg (Some [''code'' \<mapsto> ''<div *ngIf="x">'']) ''type'' = None\<close>
    and c: \<open>arg (Some [''code'' \<mapsto> ''<div *ngIf="x">'']) ''code'' = Some ''<div *ngIf="x">''\<close>
    by (simp_all add: arg_def)
  have i: \<open>issues_of ''<div *ngIf="x">'' None =
     [cross_mark @
      '' Use native control flow (@if, @for, @switch) instead of structural directives'']\<close>
    by (simp add: issues_of_def)
  show ?thesis
    using validate_component_example
      [of \<open>Some [''code'' \<mapsto> ''<div *ngIf="x">'']\<close> \<open>''<div *ngIf="x">''\<close>]
    unfolding t c i by simp
qed

text \<open>
  Claim C6, as amended. With a string as the code, whatever the string and the type, the
  validation returns a result (one text block with the formatted issues, possibly none),
  which is not an error envelope. It fails exactly when the code is absent, and then not
  with an error of the program's own: the read of \<^verbatim>\<open>code.includes\<close> throws the runtime's
  \<^verbatim>\<open>TypeError\<close>, the dispatcher catches it, and the caller gets the error envelope with
  that message; the response is the error envelope exactly when the code is absent.
\<close>

theorem validate_fails_only_without_code:
  "validateCode (Some code) type =
     Inr \<lparr>content = [\<lparr>block_type = ''text'',
                       block_text = format_result (issues_of code type)\<rparr>],
          isError = None\<rparr> \<and>
   validateCode None type = Inl (TypeError (cannot_read_undefined ''includes'')) \<and>
   ((\<exists>e. validateCode c type = Inl e) = (c = None)) \<and>
   ((call_tool ''validate_angular_code'' args =
       \<lparr>content = [\<lparr>block_type = ''text'',
                     block_text = ''Error: '' @ cannot_read_undefined ''includes''\<rparr>],
        isError = Some True\<rparr>) =
    (arg args ''code'' = None)) \<and>
   ((isError (call_tool ''validate_angular_code'' args) = Some True) = (arg args ''code'' = None)) \<and>
   ((isError (call_tool ''validate_angular_code'' args) = None) = (arg args ''code'' \<noteq> None))"
  by (cases c; cases "arg args ''code''")
     (simp_all add: validateCode_def call_tool_def error_envelope_def text_content_def)

theorem validate_fails_only_without_code_witness:
  \<open>validateCode (Some []) (Some ''general'') =
     Inr \<lparr>content = [\<lparr>block_type = ''text'', block_text = format_result []\<rparr>],
          isError = None\<rparr> \<and>
   call_tool ''validate_angular_code'' (Some [''type'' \<mapsto> ''component'']) =
     \<lparr>content =
        [\<lparr>block_type = ''text'',
          block_text = ''Error: Cannot read properties of undefined (reading \'includes\')''\<rparr>],
      isError = Some True\<rparr> \<and>
   isError (call_tool ''validate_angular_code'' (Some [''code'' \<mapsto> []])) = None\<close>
proof -
  have i: "issues_of [] (Some ''general'') = []" by (simp add: issues_of_def)
  have a: "arg (Some [''type'' \<mapsto> ''component'']) ''code'' = None"
    and b: "arg (Some [''code'' \<mapsto> []]) ''code'' \<noteq> None"
    by (simp_all add: arg_def)
  show ?thesis
    using validate_fails_only_without_code [of "[]" "Some ''general''" None
            "Some [''type'' \<mapsto> ''component'']"]
          validate_fails_only_without_code [of "[]" "Some ''general''" None
            "Some [''code'' \<mapsto> []]"]
    by (simp add: i a b cannot_read_undefined_def)
qed

text \<open>
  The claim as first stated has the failure be an \<^verbatim>\<open>InvalidArgument\<close> of the validation
  engine. With the code absent the error is the runtime's, not one the program raises.
\<close>

theorem validate_without_code_counterexample:
  \<open>validateCode None None =
     Inl (TypeError ''Cannot read properties of undefined (reading \'includes\')'') \<and>
   (case validateCode None None of Inl e \<Rightarrow> \<not> raised_by_program e | Inr r \<Rightarrow> False)\<close>
  by (simp add: validateCode_def cannot_read_undefined_def raised_by_program_def)



text \<open>
  Claim C10. When the \<^verbatim>\<open>type\<close> argument of \<^verbatim>\<open>get_code_example\<close> is absent, the
  undefined value is not \<^verbatim>\<open>'all'\<close>, the catalog has no member named \<^verbatim>\<open>undefined\<close>, and the
  caller receives the error envelope \<^verbatim>\<open>Error: No example available for type: undefined\<close>:
  the very response to the unknown key \<^verbatim>\<open>undefined\<close>, and of the same shape as the
  response to any other unknown key.
\<close>

theorem get_code_example_without_type:
  "(arg args ''type'' = None \<longrightarrow>
      call_tool ''get_code_example'' args =
        \<lparr>content = [\<lparr>block_type = ''text'',
                      block_text = ''Error: No example available for type: undefined''\<rparr>],
         isError = Some True\<rparr> \<and>
      call_tool ''get_code_example'' args =
        call_tool ''get_code_example'' (Some [''type'' \<mapsto> ''undefined''])) \<and>
   call_tool ''get_code_example'' (Some [''type'' \<mapsto> ''bogus'']) =
     \<lparr>content = [\<lparr>block_type = ''text'',
                   block_text = ''Error: No example available for type: bogus''\<rparr>],
      isError = Some True\<rparr>"
  by (simp add: call_tool_def getCodeExample_def get_property_def CODE_EXAMPLES_def
      Object_prototype_def template_def error_envelope_def arg_def)

theorem get_code_example_without_type_witness:
  "call_tool ''get_code_example'' None =
     \<lparr>content = [\<lparr>block_type = ''text'',
                   block_text = ''Error: No example available for type: undefined''\<rparr>],
      isError = Some True\<rparr> \<and>
   call_tool ''get_code_example'' (Some Map.empty) =
     call_tool ''get_code_example'' (Some [''type'' \<mapsto> ''undefined''])"
proof -
  have "arg None ''type'' = None" and "arg (Some Map.empty) ''type'' = None"
    by (simp_all add: arg_def)
  then show ?thesis
    using get_code_example_without_type [of None]
          get_code_example_without_type [of "Some Map.empty"]
    by blast
qed

section \<open>Section extraction\<close>

text \<open>
  Claim C5. For a recognized section the handler extracts with the mapped heading
  phrase. The extraction starts at the first line of the document that contains the
  phrase; it ends before the first later line that starts with \<^verbatim>\<open>## \<close> and does not
  contain the phrase, and runs to the end of the document when there is no such line.
  When no line contains the phrase (in particular when the phrase occurs nowhere in the
  document) the result is the whole document, unchanged.
\<close>

theorem section_extraction:
  "(i < length (split_str document) \<and> includes_str (split_str document ! i) phrase \<and>
    (\<forall>k<i. \<not> includes_str (split_str document ! k) phrase) \<longrightarrow>
      (i < j \<and> j < length (split_str document) \<and>
       boundary_line phrase (split_str document ! j) \<and>
       (\<forall>k. i < k \<and> k < j \<longrightarrow> \<not> boundary_line phrase (split_str document ! k)) \<longrightarrow>
         extractSection document phrase =
           join_str ''\<newline>'' (take (j - i) (drop i (split_str document)))) \<and>
      ((\<forall>k. i < k \<and> k < length (split_str document) \<longrightarrow>
           \<not> boundary_line phrase (split_str document ! k)) \<longrightarrow>
         extractSection document phrase = join_str ''\<newline>'' (drop i (split_str document)))) \<and>
   ((\<forall>l\<in>set (split_str document). \<not> includes_str l phrase) \<longrightarrow>
      extractSection document phrase = document) \<and>
   (\<not> includes_str document phrase \<longrightarrow> extractSection document phrase = document) \<and>
   (map_of sectionMap s = Some title \<longrightarrow>
      getAngularGuidelines (Some s) = text_content (extractSection ANGULAR_GUIDELINES title))"
proof (intro conjI impI)
  assume "map_of sectionMap s = Some title"
  then have "(s, title) \<in> set sectionMap" by (rule map_of_SomeD)
  then show "getAngularGuidelines (Some s) = text_content (extractSection ANGULAR_GUIDELINES title)"
    using sections_ok by blast
qed (auto intro: extractSection_boundary extractSection_to_end extractSection_not_found
      extractSection_absent)

theorem section_extraction_witness:
  "extractSection ''intro\<newline>## A\<newline>body\<newline>## B\<newline>more'' ''A'' = ''## A\<newline>body'' \<and>
   extractSection ''intro\<newline>## A\<newline>body\<newline>## B\<newline>more'' ''B'' = ''## B\<newline>more'' \<and>
   extractSection ''intro\<newline>## A\<newline>body\<newline>## B\<newline>more'' ''C'' =
     ''intro\<newline>## A\<newline>body\<newline>## B\<newline>more'' \<and>
   getAngularGuidelines (Some ''templates'') =
     text_content (extractSection ANGULAR_GUIDELINES ''Templates'')"
proof -
  let ?d = "''intro\<newline>## A\<newline>body\<newline>## B\<newline>more''"
  have ls: "split_str ?d = [''intro'', ''## A'', ''body'', ''## B'', ''more'']" by simp
  have a1: "\<forall>k<1. \<not> includes_str (split_str ?d ! k) ''A''" by (simp add: ls)
  have a2: "\<forall>k. 1 < k \<and> k < 3 \<longrightarrow> \<not> boundary_line ''A'' (split_str ?d ! k)"
  proof (intro allI impI)
    fix k :: nat assume "1 < k \<and> k < 3"
    then have "k = 2" by linarith
    then show "\<not> boundary_line ''A'' (split_str ?d ! k)" by (simp add: ls boundary_line_def)
  qed
  have b1: "\<forall>k<3. \<not> includes_str (split_str ?d ! k) ''B''"
  proof (intro allI impI)
    fix k :: nat assume "k < 3"
    then have "k = 0 \<or> k = 1 \<or> k = 2" by linarith
    then show "\<not> includes_str (split_str ?d ! k) ''B''" by (auto simp: ls)
  qed
  have b2: "\<forall>k. 3 < k \<and> k < length (split_str ?d) \<longrightarrow> \<not> boundary_line ''B'' (split_str ?d ! k)"
  proof (intro allI impI)
    fix k :: nat assume "3 < k \<and> k < length (split_str ?d)"
    then have "k = 4" by (simp add: ls)
    then show "\<not> boundary_line ''B'' (split_str ?d ! k)" by (simp add: ls boundary_line_def)
  qed
  have c: "\<forall>l\<in>set (split_str ?d). \<not> includes_str l ''C''" by (simp add: ls)
  have m: "map_of sectionMap ''templates'' = Some ''Templates''" by (simp add: sectionMap_def)
  have "extractSection ?d ''A'' = join_str ''\<newline>'' (take (3 - 1) (drop 1 (split_str ?d)))"
    using section_extraction [of 1 ?d "''A''" 3] a1 a2 by (simp add: ls boundary_line_def)
  moreover have "extractSection ?d ''B'' = join_str ''\<newline>'' (drop 3 (split_str ?d))"
    using section_extraction [of 3 ?d "''B''"] b1 b2 by (simp add: ls)
  moreover have "extractSection ?d ''C'' = ?d"
    using section_extraction [of 0 ?d "''C''"] c by blast
  moreover have "getAngularGuidelines (Some ''templates'') =
     text_content (extractSection ANGULAR_GUIDELINES ''Templates'')"
    using section_extraction [of 0 ?d "''C''" 0 "''templates''" "''Templates''"] m by blast
  ultimately show ?thesis by (simp add: ls)
qed

section \<open>The example tool\<close>

lemma occurrences_from_filter:
  "occurrences_from i s needle =
     map (\<lambda>k. i + k) (filter (\<lambda>k. prefix needle (drop k s)) [0..<Suc (length s)])"
proof (induction s arbitrary: i)
  case Nil
  show ?case by simp
next
  case (Cons c cs)
  have "[0..<Suc (Suc (length cs))] = 0 # [Suc 0..<Suc (Suc (length cs))]"
    by (rule upt_conv_Cons) simp
  also have "[Suc 0..<Suc (Suc (length cs))] = map Suc [0..<Suc (length cs)]"
    by (simp only: map_Suc_upt)
  finally have upt: "[0..<Suc (Suc (length cs))] = 0 # map Suc [0..<Suc (length cs)]" .
  have "filter (\<lambda>k. prefix needle (drop k (c # cs))) (map Suc [0..<Suc (length cs)]) =
        map Suc (filter (\<lambda>k. prefix needle (drop k cs)) [0..<Suc (length cs)])"
    by (simp add: filter_map comp_def)
  then show ?case
    using Cons [of "Suc i"] by (simp only: upt length_Cons) (simp add: startsWith_prefix)
qed

lemma filter_only: "p < m \<Longrightarrow> filter (\<lambda>k. k = p) [0..<m] = [p]"
proof (induction m)
  case 0
  then show ?case by simp
next
  case (Suc m)
  show ?case
  proof (cases "p < m")
    case True
    with Suc.IH show ?thesis by simp
  next
    case False
    with Suc.prems have "p = m" by simp
    moreover have "filter (\<lambda>k. k = m) [0..<m] = []" by (simp add: filter_empty_conv)
    ultimately show ?thesis by simp
  qed
qed

lemma occurrences_unique:
  assumes "p \<le> length s" "prefix needle (drop p s)"
    and "\<forall>k. k \<le> length s \<and> prefix needle (drop k s) \<longrightarrow> k = p"
  shows "occurrences s needle = [p]"
proof -
  have eq: "prefix needle (drop k s) = (k = p)" if "k \<in> set [0..<Suc (length s)]" for k
  proof -
    from that have "k < Suc (length s)" by (simp only: atLeast_upt [symmetric] lessThan_iff atLeast0LessThan)
    then have "k \<le> length s" by linarith
    then show ?thesis using assms(2,3) by blast
  qed
  have "filter (\<lambda>k. prefix needle (drop k s)) [0..<Suc (length s)] =
        filter (\<lambda>k. k = p) [0..<Suc (length s)]"
    by (rule filter_cong [OF refl]) (rule eq)
  also have "\<dots> = [p]" by (rule filter_only) (use assms(1) in simp)
  finally have f: "filter (\<lambda>k. prefix needle (drop k s)) [0..<Suc (length s)] = [p]" .
  show ?thesis unfolding occurrences_def occurrences_from_filter f by simp
qed

lemma split_str_at_newline:
  "split_str (a @ CHR ''\<newline>'' # b) = split_str a @ split_str b"
proof (induction a)
  case Nil
  show ?case by simp
next
  case (Cons c a)
  obtain l ls where sp: "split_str a = l # ls"
    using split_str_not_Nil [of a] by (cases "split_str a") auto
  with Cons show ?case by simp
qed

text \<open>
  A text whose lines hold the line \<open>m\<close> once: whatever stands in front of an occurrence
  of \<open>m\<close> between two line feeds is the lines in front of \<open>m\<close>.
\<close>

lemma before_marker_line:
  assumes lines: "s = join_str ''\<newline>'' (pre @ m # post)"
    and nonl: "\<forall>l\<in>set (pre @ m # post). CHR ''\<newline>'' \<notin> set l"
    and pre: "m \<notin> set pre" and post: "m \<notin> set post"
    and occ: "s = a @ CHR ''\<newline>'' # m @ CHR ''\<newline>'' # b"
  shows "a = join_str ''\<newline>'' pre"
proof -
  have m: "CHR ''\<newline>'' \<notin> set m" using nonl by simp
  have T: "split_str s = pre @ m # post"
    unfolding lines using nonl by (intro split_join_str) auto
  have "split_str s = split_str a @ split_str (m @ CHR ''\<newline>'' # b)"
    unfolding occ by (rule split_str_at_newline)
  also have "split_str (m @ CHR ''\<newline>'' # b) = m # split_str b"
    using m by (rule split_str_append)
  finally have eq: "pre @ m # post = split_str a @ m # split_str b" using T by simp
  have "pre = split_str a"
  proof -
    from eq obtain us where
      "pre = split_str a @ us \<and> us @ m # post = m # split_str b \<or>
       pre @ us = split_str a \<and> m # post = us @ m # split_str b"
      by (auto simp: append_eq_append_conv2)
    then show ?thesis
    proof
      assume h: "pre = split_str a @ us \<and> us @ m # post = m # split_str b"
      show ?thesis
      proof (cases us)
        case Nil
        with h show ?thesis by simp
      next
        case (Cons u us')
        with h have "u = m" by simp
        with h Cons pre show ?thesis by simp
      qed
    next
      assume h: "pre @ us = split_str a \<and> m # post = us @ m # split_str b"
      show ?thesis
      proof (cases us)
        case Nil
        with h show ?thesis by simp
      next
        case (Cons u us')
        with h have "post = us' @ m # split_str b" by simp
        with post show ?thesis by simp
      qed
    qed
  qed
  then show ?thesis using join_split_str [of a] by simp
qed

lemma split_str_lines_no_newline: "l \<in> set (split_str s) \<Longrightarrow> CHR ''\<newline>'' \<notin> set l"
proof (induction s arbitrary: l)
  case Nil
  then show ?case by simp
next
  case (Cons c cs)
  obtain m ms where sp: "split_str cs = m # ms"
    using split_str_not_Nil [of cs] by (cases "split_str cs") auto
  show ?case
  proof (cases "c = CHR ''\<newline>''")
    case True
    with Cons show ?thesis by auto
  next
    case False
    with Cons.prems sp have "l = c # m \<or> l \<in> set ms" by simp
    then show ?thesis using Cons.IH [of m] Cons.IH [of l] sp False by auto
  qed
qed

lemma occurs_once:
  assumes lines: "s = join_str ''\<newline>'' (pre @ m # post)"
    and nonl: "\<forall>l\<in>set (pre @ m # post). CHR ''\<newline>'' \<notin> set l"
    and pre: "m \<notin> set pre" and post: "m \<notin> set post"
    and needle: "needle = CHR ''\<newline>'' # m @ CHR ''\<newline>'' # rest"
    and at: "s = join_str ''\<newline>'' pre @ needle @ tail"
  shows "occurrences s needle = [length (join_str ''\<newline>'' pre)]"
proof (rule occurrences_unique)
  show "length (join_str ''\<newline>'' pre) \<le> length s" by (subst at) simp
  show "prefix needle (drop (length (join_str ''\<newline>'' pre)) s)" by (subst at) simp
  show "\<forall>k. k \<le> length s \<and> prefix needle (drop k s) \<longrightarrow> k = length (join_str ''\<newline>'' pre)"
  proof (intro allI impI)
    fix k assume k: "k \<le> length s \<and> prefix needle (drop k s)"
    then obtain b where b: "drop k s = needle @ b" by (auto simp: prefix_def)
    have "s = take k s @ drop k s" by simp
    then have "s = take k s @ CHR ''\<newline>'' # m @ CHR ''\<newline>'' # (rest @ b)"
      unfolding b needle by simp
    then have "take k s = join_str ''\<newline>'' pre"
      by (rule before_marker_line [OF lines nonl pre post])
    then have "length (take k s) = length (join_str ''\<newline>'' pre)" by simp
    then show "k = length (join_str ''\<newline>'' pre)" using k by simp
  qed
qed

lemma component_shape:
  "CODE_EXAMPLES_component_lines =
     [] # ''// Good: Modern Angular component with signals'' # tl (tl CODE_EXAMPLES_component_lines) \<and>
   tl (tl CODE_EXAMPLES_component_lines) \<noteq> []"
  by (simp add: CODE_EXAMPLES_component_lines_def)

lemma service_shape:
  "CODE_EXAMPLES_service_lines =
     [] # ''// Good: Modern Angular service with inject()'' # tl (tl CODE_EXAMPLES_service_lines) \<and>
   tl (tl CODE_EXAMPLES_service_lines) \<noteq> []"
  by (simp add: CODE_EXAMPLES_service_lines_def)

lemma component_marker_once:
  "''// Good: Modern Angular component with signals'' \<notin> set (tl (tl CODE_EXAMPLES_component_lines))"
  by (simp add: CODE_EXAMPLES_component_lines_def)

lemma component_marker_not_in_service:
  "''// Good: Modern Angular component with signals'' \<notin> set (tl (tl CODE_EXAMPLES_service_lines))"
  by (simp add: CODE_EXAMPLES_service_lines_def)

lemma service_marker_once:
  "''// Good: Modern Angular service with inject()'' \<notin> set (tl (tl CODE_EXAMPLES_service_lines))"
  by (simp add: CODE_EXAMPLES_service_lines_def)

lemma service_marker_not_in_component:
  "''// Good: Modern Angular service with inject()'' \<notin> set (tl (tl CODE_EXAMPLES_component_lines))"
  by (simp add: CODE_EXAMPLES_component_lines_def)

text \<open>
  The text returned for \<^verbatim>\<open>all\<close>, as lines: the title, the two subheadings and the lines
  of the two examples (each example opens with a line break, so its first line joins
  the subheading in front of it).
\<close>

lemma all_examples_lines:
  fixes Ct St :: "string list"
  assumes "Ct \<noteq> []" "St \<noteq> []"
  shows "join_str ''\<newline>''
           ([''# Angular Code Examples'', [], ''## Component Example''] @ mc # Ct @
            [[], ''## Service Example''] @ ms # St) =
         ''# Angular Code Examples\<newline>\<newline>## Component Example'' @
         (CHR ''\<newline>'' # mc @ CHR ''\<newline>'' # join_str ''\<newline>'' Ct) @
         ''\<newline>\<newline>## Service Example'' @
         (CHR ''\<newline>'' # ms @ CHR ''\<newline>'' # join_str ''\<newline>'' St)"
proof -
  have a: "join_str ''\<newline>'' (ms # St) = ms @ CHR ''\<newline>'' # join_str ''\<newline>'' St"
    using assms(2) by (simp add: join_str_Cons)
  have b: "join_str ''\<newline>'' ([[], ''## Service Example''] @ ms # St) =
           ''\<newline>## Service Example'' @ CHR ''\<newline>'' # join_str ''\<newline>'' (ms # St)"
    by (subst join_str_append) simp_all
  have c: "join_str ''\<newline>'' ((mc # Ct) @ [[], ''## Service Example''] @ ms # St) =
           (mc @ CHR ''\<newline>'' # join_str ''\<newline>'' Ct) @ CHR ''\<newline>'' #
           join_str ''\<newline>'' ([[], ''## Service Example''] @ ms # St)"
    using assms(1) by (subst join_str_append) (simp_all add: join_str_Cons)
  have d: "join_str ''\<newline>''
           ([''# Angular Code Examples'', [], ''## Component Example''] @
            ((mc # Ct) @ [[], ''## Service Example''] @ ms # St)) =
           ''# Angular Code Examples\<newline>\<newline>## Component Example'' @ CHR ''\<newline>'' #
           join_str ''\<newline>'' ((mc # Ct) @ [[], ''## Service Example''] @ ms # St)"
    by (subst join_str_append) simp_all
  show ?thesis using d unfolding c b a by simp
qed

lemma join_shape:
  "ls = [] # m # rest \<Longrightarrow> rest \<noteq> [] \<Longrightarrow>
   join_str ''\<newline>'' ls = CHR ''\<newline>'' # m @ CHR ''\<newline>'' # join_str ''\<newline>'' rest"
  by (simp add: join_str_Cons)

lemma component_text:
  "CODE_EXAMPLES_component =
     CHR ''\<newline>'' # ''// Good: Modern Angular component with signals'' @ CHR ''\<newline>'' #
     join_str ''\<newline>'' (tl (tl CODE_EXAMPLES_component_lines))"
  unfolding CODE_EXAMPLES_component_def
  using component_shape by (intro join_shape) blast+

lemma service_text:
  "CODE_EXAMPLES_service =
     CHR ''\<newline>'' # ''// Good: Modern Angular service with inject()'' @ CHR ''\<newline>'' #
     join_str ''\<newline>'' (tl (tl CODE_EXAMPLES_service_lines))"
  unfolding CODE_EXAMPLES_service_def
  using service_shape by (intro join_shape) blast+

lemma examples_before_service:
  fixes Ct :: "string list"
  assumes "Ct \<noteq> []"
  shows "join_str ''\<newline>''
           ([''# Angular Code Examples'', [], ''## Component Example''] @ mc # Ct @
            [[], ''## Service Example'']) =
         ''# Angular Code Examples\<newline>\<newline>## Component Example'' @
         (CHR ''\<newline>'' # mc @ CHR ''\<newline>'' # join_str ''\<newline>'' Ct) @
         ''\<newline>\<newline>## Service Example''"
proof -
  have c: "join_str ''\<newline>'' ((mc # Ct) @ [[], ''## Service Example'']) =
           (mc @ CHR ''\<newline>'' # join_str ''\<newline>'' Ct) @ ''\<newline>\<newline>## Service Example''"
    using assms by (subst join_str_append) (simp_all add: join_str_Cons)
  have d: "join_str ''\<newline>''
           ([''# Angular Code Examples'', [], ''## Component Example''] @
            ((mc # Ct) @ [[], ''## Service Example''])) =
           ''# Angular Code Examples\<newline>\<newline>## Component Example'' @ CHR ''\<newline>'' #
           join_str ''\<newline>'' ((mc # Ct) @ [[], ''## Service Example''])"
    by (subst join_str_append) simp_all
  show ?thesis using d unfolding c by simp
qed

lemma example_lines_no_newline:
  "\<forall>l\<in>set CODE_EXAMPLES_component_lines. CHR ''\<newline>'' \<notin> set l"
  "\<forall>l\<in>set CODE_EXAMPLES_service_lines. CHR ''\<newline>'' \<notin> set l"
  using split_str_lines_no_newline [of _ CODE_EXAMPLES_component]
        split_str_lines_no_newline [of _ CODE_EXAMPLES_service]
  by (simp_all add: component_lines service_lines)

lemma example_tails_no_newline:
  "\<forall>l\<in>set (tl (tl CODE_EXAMPLES_component_lines)). CHR ''\<newline>'' \<notin> set l"
  "\<forall>l\<in>set (tl (tl CODE_EXAMPLES_service_lines)). CHR ''\<newline>'' \<notin> set l"
  using example_lines_no_newline component_shape service_shape
  by (metis list.set_intros(2))+

lemma length_join_str:
  "length (join_str sep ls) = sum_list (map length ls) + length sep * (length ls - 1)"
  by (induction sep ls rule: join_str.induct) auto

lemma length_component: "length CODE_EXAMPLES_component = 1009"
  by (simp add: CODE_EXAMPLES_component_def length_join_str CODE_EXAMPLES_component_lines_def)

text \<open>
  Claim C7. For \<^verbatim>\<open>all\<close> the tool returns one text block, not an error: the title, the
  subheading \<^verbatim>\<open>## Component Example\<close> with the component example right after it, then
  the subheading \<^verbatim>\<open>## Service Example\<close> with the service example right after it. In the
  text of that block the component example occurs at one position only, 45, right after
  its subheading, and the service example at one position only, 1074, right after its
  own: each once, the component example first.
\<close>

theorem get_code_example_all:
  "call_tool ''get_code_example'' (Some [''type'' \<mapsto> ''all'']) =
     \<lparr>content =
        [\<lparr>block_type = ''text'',
          block_text =
            ''# Angular Code Examples\<newline>\<newline>## Component Example'' @ CODE_EXAMPLES_component @
            ''\<newline>\<newline>## Service Example'' @ CODE_EXAMPLES_service\<rparr>],
      isError = None\<rparr> \<and>
   occurrences
       (block_text (hd (content (call_tool ''get_code_example'' (Some [''type'' \<mapsto> ''all''])))))
       CODE_EXAMPLES_component = [45] \<and>
   occurrences
       (block_text (hd (content (call_tool ''get_code_example'' (Some [''type'' \<mapsto> ''all''])))))
       CODE_EXAMPLES_service = [1074] \<and>
   length ''# Angular Code Examples\<newline>\<newline>## Component Example'' = 45 \<and>
   length (''# Angular Code Examples\<newline>\<newline>## Component Example'' @ CODE_EXAMPLES_component @
           ''\<newline>\<newline>## Service Example'') = 1074"
proof -
  let ?mc = "''// Good: Modern Angular component with signals''"
  let ?ms = "''// Good: Modern Angular service with inject()''"
  let ?P = "[''# Angular Code Examples'', [], ''## Component Example'']"
  let ?H1 = "''# Angular Code Examples\<newline>\<newline>## Component Example''"
  let ?H2 = "''\<newline>\<newline>## Service Example''"
  define Ct where "Ct = tl (tl CODE_EXAMPLES_component_lines)"
  define St where "St = tl (tl CODE_EXAMPLES_service_lines)"
  define C where "C = CODE_EXAMPLES_component"
  define S where "S = CODE_EXAMPLES_service"
  define s where "s = ?H1 @ C @ ?H2 @ S"
  have Ct: "Ct \<noteq> []" and St: "St \<noteq> []"
    using component_shape service_shape by (simp_all add: Ct_def St_def)
  have C: "C = CHR ''\<newline>'' # ?mc @ CHR ''\<newline>'' # join_str ''\<newline>'' Ct"
    unfolding C_def Ct_def by (rule component_text)
  have S: "S = CHR ''\<newline>'' # ?ms @ CHR ''\<newline>'' # join_str ''\<newline>'' St"
    unfolding S_def St_def by (rule service_text)
  have lines: "s = join_str ''\<newline>'' (?P @ ?mc # Ct @ [[], ''## Service Example''] @ ?ms # St)"
    unfolding s_def C S by (rule all_examples_lines [OF Ct St, symmetric])
  have before: "join_str ''\<newline>'' (?P @ ?mc # Ct @ [[], ''## Service Example'']) = ?H1 @ C @ ?H2"
    unfolding C by (rule examples_before_service [OF Ct])
  have nonlC: "\<forall>l\<in>set Ct. CHR ''\<newline>'' \<notin> set l" and nonlS: "\<forall>l\<in>set St. CHR ''\<newline>'' \<notin> set l"
    using example_tails_no_newline by (simp_all add: Ct_def St_def)
  have mcC: "?mc \<notin> set Ct" and mcS: "?mc \<notin> set St" and msS: "?ms \<notin> set St" and msC: "?ms \<notin> set Ct"
    using component_marker_once component_marker_not_in_service service_marker_once
      service_marker_not_in_component by (simp_all add: Ct_def St_def)
  have occC: "occurrences s C = [length (join_str ''\<newline>'' ?P)]"
  proof (rule occurs_once [where m = ?mc and post = "Ct @ [[], ''## Service Example''] @ ?ms # St"
        and rest = "join_str ''\<newline>'' Ct" and tail = "?H2 @ S"])
    show "s = join_str ''\<newline>'' (?P @ ?mc # Ct @ [[], ''## Service Example''] @ ?ms # St)"
      by (rule lines)
    show "\<forall>l\<in>set (?P @ ?mc # Ct @ [[], ''## Service Example''] @ ?ms # St). CHR ''\<newline>'' \<notin> set l"
      using nonlC nonlS by auto
    show "?mc \<notin> set ?P" by simp
    show "?mc \<notin> set (Ct @ [[], ''## Service Example''] @ ?ms # St)" using mcC mcS by simp
    show "C = CHR ''\<newline>'' # ?mc @ CHR ''\<newline>'' # join_str ''\<newline>'' Ct" by (rule C)
    show "s = join_str ''\<newline>'' ?P @ C @ ?H2 @ S" by (simp add: s_def)
  qed
  have occS: "occurrences s S =
      [length (join_str ''\<newline>'' (?P @ ?mc # Ct @ [[], ''## Service Example'']))]"
  proof (rule occurs_once [where m = ?ms and post = St
        and rest = "join_str ''\<newline>'' St" and tail = "[]"])
    show "s = join_str ''\<newline>'' ((?P @ ?mc # Ct @ [[], ''## Service Example'']) @ ?ms # St)"
      using lines by simp
    show "\<forall>l\<in>set ((?P @ ?mc # Ct @ [[], ''## Service Example'']) @ ?ms # St).
            CHR ''\<newline>'' \<notin> set l"
      using nonlC nonlS by auto
    show "?ms \<notin> set (?P @ ?mc # Ct @ [[], ''## Service Example''])" using msC by simp
    show "?ms \<notin> set St" by (rule msS)
    show "S = CHR ''\<newline>'' # ?ms @ CHR ''\<newline>'' # join_str ''\<newline>'' St" by (rule S)
    show "s = join_str ''\<newline>'' (?P @ ?mc # Ct @ [[], ''## Service Example'']) @ S @ []"
      unfolding before by (simp add: s_def)
  qed
  have call: "call_tool ''get_code_example'' (Some [''type'' \<mapsto> ''all'']) =
      \<lparr>content = [\<lparr>block_type = ''text'', block_text = s\<rparr>], isError = None\<rparr>"
    by (simp add: call_tool_def getCodeExample_def arg_def s_def C_def S_def text_content_def)
  have bt: "block_text (hd (content (call_tool ''get_code_example'' (Some [''type'' \<mapsto> ''all''])))) = s"
    unfolding call by simp
  have l1: "length (join_str ''\<newline>'' ?P) = 45" by simp
  have l2: "length (?H1 @ C @ ?H2) = 1074" by (simp add: C_def length_component)
  have oC: "occurrences s C = [45]" using occC unfolding l1 .
  have oS: "occurrences s S = [1074]" using occS unfolding before l2 .
  show ?thesis
    unfolding bt using call oC oS l2 unfolding s_def C_def S_def by simp
qed

section \<open>Unknown names\<close>

text \<open>
  Claim C1. A tool name other than the three registered ones gives the error envelope:
  one text block reading \<^verbatim>\<open>Error: Unknown tool: <name>\<close> with \<^verbatim>\<open>isError\<close> true, returned
  as the tool result and not thrown. A prompt name other than the two registered ones
  rejects the request with the message \<^verbatim>\<open>Unknown prompt: <name>\<close> and gives no content
  response.
\<close>

theorem unknown_names:
  "(name \<notin> {''get_angular_guidelines'', ''get_code_example'', ''validate_angular_code''} \<longrightarrow>
      call_tool name args =
        \<lparr>content = [\<lparr>block_type = ''text'', block_text = ''Error: Unknown tool: '' @ name\<rparr>],
         isError = Some True\<rparr> \<and>
      handle (CallTool name args) =
        ToolResult (error_envelope (Error (''Unknown tool: '' @ name)))) \<and>
   (pname \<notin> {''angular_code_review'', ''create_angular_component''} \<longrightarrow>
      get_prompt pname pargs = Inl (Error (''Unknown prompt: '' @ pname)) \<and>
      handle (GetPrompt pname pargs) = Rejected (Error (''Unknown prompt: '' @ pname)))"
  by (simp add: call_tool_def get_prompt_def error_envelope_def)

theorem unknown_names_witness:
  "call_tool ''bogus'' None =
     \<lparr>content = [\<lparr>block_type = ''text'', block_text = ''Error: Unknown tool: bogus''\<rparr>],
      isError = Some True\<rparr> \<and>
   handle (CallTool ''bogus'' None) =
     ToolResult (error_envelope (Error ''Unknown tool: bogus'')) \<and>
   get_prompt ''bogus'' None = Inl (Error ''Unknown prompt: bogus'') \<and>
   handle (GetPrompt ''bogus'' None) = Rejected (Error ''Unknown prompt: bogus'')"
  using unknown_names [of "''bogus''" None "''bogus''" None]
  by (simp add: error_envelope_def)

end
